theory Spec2Isabelle
  imports Complex_Main
begin

unbundle bit_operations_syntax

section \<open>Number model\<close>

text \<open>
  The geometry engine of \<^verbatim>\<open>balQt/tools.py\<close> computes on Python floats, which are
  IEEE doubles. Two readings of its arithmetic are used.

  In the exact reading numbers are reals: \<^verbatim>\<open>math.sin\<close>, \<^verbatim>\<open>math.cos\<close>,
  \<^verbatim>\<open>math.sqrt\<close> are the real functions, \<^verbatim>\<open>math.inf\<close> and \<^verbatim>\<open>None\<close> are separate
  constructors where the code tests for them, and no result is rounded. Python's
  \<^verbatim>\<open>x % m\<close> takes the sign of the divisor: for the positive literal divisors of the
  source (360, 180, 90) it is \<open>x - m * floor (x / m)\<close>. Python's \<^verbatim>\<open>a / b\<close> raises
  \<^verbatim>\<open>ZeroDivisionError\<close> when \<open>b\<close> is zero; where a divisor is not a literal the model
  returns that error.

  In the double reading (section Double precision) every arithmetic result is rounded
  to the nearest double. It is used where a property depends on the rounding: the
  range of \<^verbatim>\<open>normalize_angle\<close>, the right-angle values of
  \<^verbatim>\<open>get_rotated_dimensions\<close> and the branch that \<^verbatim>\<open>get_original_dimensions\<close>
  takes at 45 degrees. The exact reading differs from the doubles in these
  places: \<^verbatim>\<open>angle % 360\<close> can round up to 360.0; \<^verbatim>\<open>math.cos\<close> of a double is never
  0.0 (it is about 6.1e-17 at \<^verbatim>\<open>math.radians(90)\<close> and at twice
  \<^verbatim>\<open>math.radians(45)\<close>), so in doubles the test of line 193 never succeeds; and a
  quotient of known dimensions can overflow to \<^verbatim>\<open>math.inf\<close> or underflow to 0.
\<close>

datatype py_error = ZeroDivisionError

definition py_mod :: "real \<Rightarrow> real \<Rightarrow> real" where
  "py_mod x m = x - m * of_int \<lfloor>x / m\<rfloor>"

definition py_div :: "real \<Rightarrow> real \<Rightarrow> py_error + real" where
  "py_div a b = (if b = 0 then Inl ZeroDivisionError else Inr (a / b))"

definition math_radians :: "real \<Rightarrow> real" where
  "math_radians x = x * pi / 180"

section \<open>Angle helpers (tools.py, lines 62-110)\<close>

datatype QuadrantOrAxis =
    POSITIVE_X_AXIS
  | POSITIVE_Y_AXIS
  | NEGATIVE_X_AXIS
  | NEGATIVE_Y_AXIS
  | QUADRANT_1
  | QUADRANT_2
  | QUADRANT_3
  | QUADRANT_4

definition normalize_angle :: "real \<Rightarrow> real" where
  "normalize_angle angle = py_mod angle 360"

definition get_quadrant_or_axis :: "real \<Rightarrow> QuadrantOrAxis" where
  "get_quadrant_or_axis angle =
     (let normalized_angle = normalize_angle angle in
      if normalized_angle = 0 then POSITIVE_X_AXIS
      else if normalized_angle = 90 then POSITIVE_Y_AXIS
      else if normalized_angle = 180 then NEGATIVE_X_AXIS
      else if normalized_angle = 270 then NEGATIVE_Y_AXIS
      else if normalized_angle < 90 then QUADRANT_1
      else if normalized_angle < 180 then QUADRANT_2
      else if normalized_angle < 270 then QUADRANT_3
      else QUADRANT_4)"

definition radians_angle :: "real \<Rightarrow> bool \<Rightarrow> real" where
  "radians_angle angle do_normalize =
     math_radians (if do_normalize then normalize_angle angle else angle)"

definition abs_sin :: "real \<Rightarrow> real" where
  "abs_sin angle = \<bar>sin angle\<bar>"

definition abs_cos :: "real \<Rightarrow> real" where
  "abs_cos angle = \<bar>cos angle\<bar>"

definition abs_sin_d :: "real \<Rightarrow> real" where
  "abs_sin_d angle = abs_sin (radians_angle angle True)"

definition abs_cos_d :: "real \<Rightarrow> real" where
  "abs_cos_d angle = abs_cos (radians_angle angle True)"

section \<open>Size policies (tools.py, lines 6-38)\<close>

text \<open>
  \<^verbatim>\<open>QSizePolicy.Policy\<close> comes from the Qt binding, which is not part of the
  repository; the seven members the source lists are a datatype, and their integer flag
  values are a parameter \<open>val\<close> of the model. Qt's own values are \<open>qt_policy_value\<close>.
\<close>

datatype Policy =
    Fixed
  | Minimum
  | MinimumExpanding
  | Maximum
  | Preferred
  | Expanding
  | Ignored

definition policy_order :: "Policy list" where
  "policy_order =
     [Fixed, Minimum, MinimumExpanding, Maximum, Preferred, Expanding, Ignored]"

text \<open>The \<^verbatim>\<open>for\<close> loop over \<^verbatim>\<open>policy_order\<close> with its fallback after the loop.\<close>

fun closest_superior :: "(Policy \<Rightarrow> nat) \<Rightarrow> nat \<Rightarrow> Policy list \<Rightarrow> Policy" where
  "closest_superior val combined_policy [] = Ignored"
| "closest_superior val combined_policy (policy # rest) =
     (if combined_policy \<le> val policy then policy
      else closest_superior val combined_policy rest)"

definition combine_size_policies :: "(Policy \<Rightarrow> nat) \<Rightarrow> Policy \<Rightarrow> Policy \<Rightarrow> Policy" where
  "combine_size_policies val horizontal_policy vertical_policy =
     (let combined_policy = val horizontal_policy OR val vertical_policy
      in closest_superior val combined_policy policy_order)"

text \<open>
  Qt's flag values: GrowFlag = 1, ExpandFlag = 2, ShrinkFlag = 4, IgnoreFlag = 8, and
  Fixed = 0, Minimum = Grow, Maximum = Shrink, Preferred = Grow | Shrink,
  MinimumExpanding = Grow | Expand, Expanding = Grow | Shrink | Expand,
  Ignored = Shrink | Grow | Ignore.
\<close>

fun qt_policy_value :: "Policy \<Rightarrow> nat" where
  "qt_policy_value Fixed = 0"
| "qt_policy_value Minimum = 1"
| "qt_policy_value MinimumExpanding = 3"
| "qt_policy_value Maximum = 4"
| "qt_policy_value Preferred = 5"
| "qt_policy_value Expanding = 7"
| "qt_policy_value Ignored = 13"

text \<open>The position of a policy in \<^verbatim>\<open>policy_order\<close>, least flexible first.\<close>

fun flexibility :: "Policy \<Rightarrow> nat" where
  "flexibility Fixed = 0"
| "flexibility Minimum = 1"
| "flexibility MinimumExpanding = 2"
| "flexibility Maximum = 3"
| "flexibility Preferred = 4"
| "flexibility Expanding = 5"
| "flexibility Ignored = 6"

text \<open>
  What the laws of the combination need of the flag values: \<^verbatim>\<open>Fixed\<close> has no flag
  set, and the values increase strictly along \<^verbatim>\<open>policy_order\<close>.
\<close>

definition policy_values_ascending :: "(Policy \<Rightarrow> nat) \<Rightarrow> bool" where
  "policy_values_ascending val \<longleftrightarrow> val Fixed = 0 \<and> sorted_wrt (<) (map val policy_order)"

section \<open>Forward and inverse mapping (tools.py, lines 112-228)\<close>

definition get_rotated_dimensions :: "real \<Rightarrow> real \<Rightarrow> real \<Rightarrow> real \<times> real" where
  "get_rotated_dimensions width height angle =
     (let angle_rad = radians_angle angle True;
          cos_angle = abs_cos angle_rad;
          sin_angle = abs_sin angle_rad;
          rotated_width = width * cos_angle + height * sin_angle;
          rotated_height = height * cos_angle + width * sin_angle
      in (rotated_width, rotated_height))"

text \<open>
  The value of the local \<^verbatim>\<open>aspect_ratio\<close>: \<^verbatim>\<open>None\<close>, \<^verbatim>\<open>math.inf\<close> or a number.
\<close>

datatype aspect = NoRatio | InfRatio | Ratio real

fun aspect_ratio_of :: "real option \<Rightarrow> real option \<Rightarrow> aspect" where
  "aspect_ratio_of (Some current_width) (Some current_height) =
     (if current_height \<noteq> 0 then Ratio (current_width / current_height) else InfRatio)"
| "aspect_ratio_of (Some current_width) None = InfRatio"
| "aspect_ratio_of None (Some current_height) = Ratio 0"
| "aspect_ratio_of None None = NoRatio"

definition bind_err :: "py_error + 'a \<Rightarrow> ('a \<Rightarrow> py_error + 'b) \<Rightarrow> py_error + 'b" where
  "bind_err m f = (case m of Inl e \<Rightarrow> Inl e | Inr x \<Rightarrow> f x)"

text \<open>
  The three regimes of the inverse mapping, selected by the outer \<^verbatim>\<open>if\<close> /
  \<^verbatim>\<open>elif\<close> / \<^verbatim>\<open>else\<close> of lines 164, 193 and 210.
\<close>

datatype regime = RIGHT_ANGLE | FAMILY_45 | GENERAL

definition angle_regime :: "real \<Rightarrow> regime" where
  "angle_regime angle =
     (let angle_rad = radians_angle angle True;
          cos_2_angle = cos (2 * angle_rad)
      in if py_mod angle 90 = 0 then RIGHT_ANGLE
         else if cos_2_angle = 0 then FAMILY_45
         else GENERAL)"

text \<open>
  The bodies of the three branches (lines 165-190, 194-207 and 211-226). Each returns
  the pair \<^verbatim>\<open>(width, height)\<close> that \<^verbatim>\<open>get_original_dimensions\<close> returns at line 228,
  or the error of the first division by zero. \<^verbatim>\<open>current_width\<close> is read only where
  the ratio is infinite and \<^verbatim>\<open>current_height\<close> only where it is zero; there
  \<^verbatim>\<open>aspect_ratio_of\<close> has seen the argument present.
\<close>

definition right_angle_dimensions ::
  "real \<Rightarrow> real \<Rightarrow> real \<Rightarrow> real option \<Rightarrow> real option \<Rightarrow> aspect
   \<Rightarrow> py_error + (real \<times> real)" where
  "right_angle_dimensions rotated_width rotated_height angle current_width current_height
      aspect_ratio =
     (if py_mod angle 180 = 0 then
        (case aspect_ratio of
           InfRatio \<Rightarrow> Inr (the current_width, rotated_height)
         | Ratio r \<Rightarrow>
             if r = 0 then Inr (rotated_width, the current_height)
             else (let width = min rotated_width (rotated_height * r)
                   in bind_err (py_div width r) (\<lambda>height. Inr (width, height)))
         | NoRatio \<Rightarrow> Inr (rotated_width, rotated_height))
      else
        (case aspect_ratio of
           InfRatio \<Rightarrow> Inr (the current_width, rotated_width)
         | Ratio r \<Rightarrow>
             if r = 0 then Inr (rotated_height, the current_height)
             else (let width = min rotated_height (rotated_width * r)
                   in bind_err (py_div width r) (\<lambda>height. Inr (width, height)))
         | NoRatio \<Rightarrow> Inr (rotated_height, rotated_width)))"

definition family_45_dimensions ::
  "real \<Rightarrow> real \<Rightarrow> real option \<Rightarrow> real option \<Rightarrow> aspect \<Rightarrow> py_error + (real \<times> real)" where
  "family_45_dimensions rotated_width rotated_height current_width current_height
      aspect_ratio =
     (let sqrt2_min_dim = sqrt 2 * min rotated_width rotated_height
      in case aspect_ratio of
           InfRatio \<Rightarrow>
             (let width = the current_width in Inr (width, sqrt2_min_dim - width))
         | Ratio r \<Rightarrow>
             if r = 0 then
               (let height = the current_height in Inr (sqrt2_min_dim - height, height))
             else bind_err (py_div sqrt2_min_dim (r + 1))
                    (\<lambda>height. Inr (height * r, height))
         | NoRatio \<Rightarrow> Inr (sqrt2_min_dim / 2, sqrt2_min_dim / 2))"

definition general_dimensions ::
  "real \<Rightarrow> real \<Rightarrow> real \<Rightarrow> real \<Rightarrow> real \<Rightarrow> real option \<Rightarrow> real option \<Rightarrow> aspect
   \<Rightarrow> py_error + (real \<times> real)" where
  "general_dimensions rotated_width rotated_height cos_angle sin_angle cos_2_angle
      current_width current_height aspect_ratio =
     (case aspect_ratio of
        InfRatio \<Rightarrow>
          (let width = the current_width
           in bind_err (py_div (rotated_width - width * cos_angle) sin_angle) (\<lambda>a.
              bind_err (py_div (rotated_height - width * sin_angle) cos_angle) (\<lambda>b.
              Inr (width, min a b))))
      | Ratio r \<Rightarrow>
          if r = 0 then
            (let height = the current_height
             in bind_err (py_div (rotated_width - height * sin_angle) cos_angle) (\<lambda>a.
                bind_err (py_div (rotated_height - height * cos_angle) sin_angle) (\<lambda>b.
                Inr (min a b, height))))
          else
            bind_err (py_div rotated_width (r * cos_angle + sin_angle)) (\<lambda>a.
            bind_err (py_div rotated_height (r * sin_angle + cos_angle)) (\<lambda>b.
            (let height = min a b in Inr (height * r, height))))
      | NoRatio \<Rightarrow>
          bind_err
            (py_div (rotated_width * cos_angle - rotated_height * sin_angle) cos_2_angle)
            (\<lambda>q. let width = \<bar>q\<bar>
                 in bind_err (py_div \<bar>rotated_height - width * sin_angle\<bar> cos_angle)
                      (\<lambda>height. Inr (width, height))))"

definition get_original_dimensions ::
  "real \<Rightarrow> real \<Rightarrow> real \<Rightarrow> real option \<Rightarrow> real option \<Rightarrow> py_error + (real \<times> real)" where
  "get_original_dimensions rotated_width rotated_height angle current_width current_height =
     (let angle_rad = radians_angle angle True;
          cos_angle = abs_cos angle_rad;
          cos_2_angle = cos (2 * angle_rad);
          sin_angle = abs_sin angle_rad;
          aspect_ratio = aspect_ratio_of current_width current_height
      in case angle_regime angle of
           RIGHT_ANGLE \<Rightarrow>
             right_angle_dimensions rotated_width rotated_height angle
               current_width current_height aspect_ratio
         | FAMILY_45 \<Rightarrow>
             family_45_dimensions rotated_width rotated_height
               current_width current_height aspect_ratio
         | GENERAL \<Rightarrow>
             general_dimensions rotated_width rotated_height cos_angle sin_angle cos_2_angle
               current_width current_height aspect_ratio)"

section \<open>Anchor adjustment of the scene rectangle (rotated_widget.py, lines 146-165)\<close>

text \<open>
  Qt's \<^verbatim>\<open>QRectF\<close> stores the left and top coordinates and the size. \<^verbatim>\<open>setLeft\<close> and
  \<^verbatim>\<open>setTop\<close> move one edge and keep the opposite edge, so the size changes with them.
\<close>

record QRectF =
  rect_x :: real
  rect_y :: real
  rect_w :: real
  rect_h :: real

definition setLeft :: "real \<Rightarrow> QRectF \<Rightarrow> QRectF" where
  "setLeft pos r = r\<lparr>rect_x := pos, rect_w := rect_w r - (pos - rect_x r)\<rparr>"

definition setTop :: "real \<Rightarrow> QRectF \<Rightarrow> QRectF" where
  "setTop pos r = r\<lparr>rect_y := pos, rect_h := rect_h r - (pos - rect_y r)\<rparr>"

definition setWidth :: "real \<Rightarrow> QRectF \<Rightarrow> QRectF" where
  "setWidth v r = r\<lparr>rect_w := v\<rparr>"

definition setHeight :: "real \<Rightarrow> QRectF \<Rightarrow> QRectF" where
  "setHeight v r = r\<lparr>rect_h := v\<rparr>"

definition rect_right :: "QRectF \<Rightarrow> real" where
  "rect_right r = rect_x r + rect_w r"

definition rect_bottom :: "QRectF \<Rightarrow> real" where
  "rect_bottom r = rect_y r + rect_h r"

text \<open>
  The branch on \<^verbatim>\<open>quadrant_or_axis\<close>: for each outcome, the argument of the
  \<^verbatim>\<open>setLeft\<close> call and of the \<^verbatim>\<open>setTop\<close> call of that branch, \<open>None\<close> where the
  branch does not make the call. Every argument reads the scene rectangle only through
  fields that the calls before it in the branch leave unchanged.
\<close>

fun anchor_adjustment ::
  "QuadrantOrAxis \<Rightarrow> real \<Rightarrow> real \<Rightarrow> real \<Rightarrow> real \<Rightarrow> real \<Rightarrow> QRectF \<Rightarrow> QRectF
   \<Rightarrow> real option \<times> real option" where
  "anchor_adjustment QUADRANT_1 angle width height rotated_width rotated_height
      proxy_rect scene_rect =
     (Some (rect_x scene_rect - (height - rect_h proxy_rect) * abs_sin_d angle), None)"
| "anchor_adjustment QUADRANT_2 angle width height rotated_width rotated_height
      proxy_rect scene_rect =
     (Some (rect_x scene_rect - (rotated_width - rect_w scene_rect)),
      Some (rect_y scene_rect - (height - rect_h proxy_rect) * abs_cos_d angle))"
| "anchor_adjustment QUADRANT_3 angle width height rotated_width rotated_height
      proxy_rect scene_rect =
     (Some (rect_x scene_rect - (width - rect_w proxy_rect) * abs_cos_d angle),
      Some (rect_y scene_rect - (rotated_height - rect_h scene_rect)))"
| "anchor_adjustment QUADRANT_4 angle width height rotated_width rotated_height
      proxy_rect scene_rect =
     (None, Some (rect_y scene_rect - (width - rect_w proxy_rect) * abs_sin_d angle))"
| "anchor_adjustment NEGATIVE_X_AXIS angle width height rotated_width rotated_height
      proxy_rect scene_rect =
     (Some (rect_x scene_rect - (rotated_width - rect_w scene_rect)), None)"
| "anchor_adjustment NEGATIVE_Y_AXIS angle width height rotated_width rotated_height
      proxy_rect scene_rect =
     (None, Some (rect_y scene_rect - (rotated_height - rect_h scene_rect)))"
| "anchor_adjustment POSITIVE_X_AXIS angle width height rotated_width rotated_height
      proxy_rect scene_rect = (None, None)"
| "anchor_adjustment POSITIVE_Y_AXIS angle width height rotated_width rotated_height
      proxy_rect scene_rect = (None, None)"

definition apply_adjustment :: "real option \<times> real option \<Rightarrow> QRectF \<Rightarrow> QRectF" where
  "apply_adjustment adj scene_rect =
     (let r1 = (case fst adj of None \<Rightarrow> scene_rect | Some pos \<Rightarrow> setLeft pos scene_rect)
      in case snd adj of None \<Rightarrow> r1 | Some pos \<Rightarrow> setTop pos r1)"

definition resizeEvent_scene_rect ::
  "real \<Rightarrow> real \<Rightarrow> real \<Rightarrow> QRectF \<Rightarrow> QRectF \<Rightarrow> QRectF" where
  "resizeEvent_scene_rect angle width height proxy_rect scene_rect =
     (let (rotated_width, rotated_height) = get_rotated_dimensions width height angle;
          quadrant_or_axis = get_quadrant_or_axis angle;
          anchored = apply_adjustment
            (anchor_adjustment quadrant_or_axis angle width height
               rotated_width rotated_height proxy_rect scene_rect) scene_rect
      in setHeight rotated_height (setWidth rotated_width anchored))"

section \<open>Double precision\<close>

text \<open>
  Rounding to the nearest double, ties to even, for results in the normal range (53
  significant bits; overflow and underflow are not modelled).
\<close>

definition round_half_even :: "real \<Rightarrow> int" where
  "round_half_even x =
     (let n = \<lfloor>x\<rfloor>; f = x - of_int n
      in if f < 1 / 2 then n
         else if 1 / 2 < f then n + 1
         else if even n then n else n + 1)"

definition rnd :: "real \<Rightarrow> real" where
  "rnd x =
     (if x = 0 then 0
      else let e = \<lfloor>log 2 \<bar>x\<bar>\<rfloor>; u = 2 powi (e - 52)
           in u * of_int (round_half_even (x / u)))"

text \<open>
  The remainder of CPython's floats: C's \<^verbatim>\<open>fmod\<close> is exact and takes the sign of the
  dividend; a non-zero remainder of the wrong sign is moved by adding the divisor, and
  that addition is rounded by \<open>fl\<close>. With no rounding this is the remainder of the
  exact reading.
\<close>

definition c_fmod :: "real \<Rightarrow> real \<Rightarrow> real" where
  "c_fmod x y =
     x - y * of_int (if 0 \<le> x / y then \<lfloor>x / y\<rfloor> else \<lceil>x / y\<rceil>)"

definition float_rem :: "(real \<Rightarrow> real) \<Rightarrow> real \<Rightarrow> real \<Rightarrow> real" where
  "float_rem fl vx wx =
     (let md = c_fmod vx wx
      in if md \<noteq> 0 then (if (wx < 0) \<noteq> (md < 0) then fl (md + wx) else md)
         else 0)"

text \<open>Line 95 in doubles.\<close>

definition normalize_angle_double :: "real \<Rightarrow> real" where
  "normalize_angle_double angle = float_rem rnd angle 360"

text \<open>
  Lines 119-123 with every product and sum rounded by \<open>fl\<close>, on the values
  \<^verbatim>\<open>cos_angle\<close> and \<^verbatim>\<open>sin_angle\<close> of lines 116-117. \<^verbatim>\<open>math.radians\<close>,
  \<^verbatim>\<open>math.cos\<close> and \<^verbatim>\<open>math.sin\<close> belong to the platform's library, not to the
  repository, so the doubles they return are arguments here.
\<close>

definition get_rotated_dimensions_fl ::
  "(real \<Rightarrow> real) \<Rightarrow> real \<Rightarrow> real \<Rightarrow> real \<Rightarrow> real \<Rightarrow> real \<times> real" where
  "get_rotated_dimensions_fl fl width height cos_angle sin_angle =
     (let rotated_width = fl (fl (width * cos_angle) + fl (height * sin_angle));
          rotated_height = fl (fl (height * cos_angle) + fl (width * sin_angle))
      in (rotated_width, rotated_height))"

text \<open>
  The doubles that \<^verbatim>\<open>math.cos\<close> and \<^verbatim>\<open>math.sin\<close> return (CPython on an IEEE 754
  platform) at the inputs used below: \<^verbatim>\<open>math.cos(math.radians(45))\<close> is
  \<^verbatim>\<open>0x1.6a09e667f3bcdp-1\<close>, \<^verbatim>\<open>math.sin(math.radians(45))\<close> is
  \<^verbatim>\<open>0x1.6a09e667f3bccp-1\<close>, and \<^verbatim>\<open>math.cos(math.radians(90))\<close>, which is also
  \<^verbatim>\<open>math.cos(2 * math.radians(45))\<close>, is \<^verbatim>\<open>0x1.1a62633145c07p-54\<close>.
\<close>

definition cos_45_double :: real where
  "cos_45_double = 6369051672525773 / 2 ^ 53"

definition sin_45_double :: real where
  "sin_45_double = 1592262918131443 / 2 ^ 51"

definition cos_90_double :: real where
  "cos_90_double = 4967757600021511 / 2 ^ 106"

text \<open>
  The tests of lines 164 and 193 in doubles, on the value \<^verbatim>\<open>cos_2_angle\<close> of line
  150, and lines 225-226 (the general regime without known dimensions) with every
  product, difference and quotient rounded by \<open>fl\<close>.
\<close>

definition angle_regime_fl :: "(real \<Rightarrow> real) \<Rightarrow> real \<Rightarrow> real \<Rightarrow> regime" where
  "angle_regime_fl fl angle cos_2_angle =
     (if float_rem fl angle 90 = 0 then RIGHT_ANGLE
      else if cos_2_angle = 0 then FAMILY_45
      else GENERAL)"

definition general_unconstrained_fl ::
  "(real \<Rightarrow> real) \<Rightarrow> real \<Rightarrow> real \<Rightarrow> real \<Rightarrow> real \<Rightarrow> real \<Rightarrow> py_error + (real \<times> real)" where
  "general_unconstrained_fl fl rotated_width rotated_height cos_angle sin_angle cos_2_angle =
     bind_err
       (py_div (fl (fl (rotated_width * cos_angle) - fl (rotated_height * sin_angle)))
          cos_2_angle)
       (\<lambda>q. let width = \<bar>fl q\<bar>
            in bind_err (py_div \<bar>fl (rotated_height - fl (width * sin_angle))\<bar> cos_angle)
                 (\<lambda>h. Inr (width, fl h)))"

text \<open>
  The largest finite double and the smallest positive double. A quotient between them
  is rounded to a finite, non-zero double, so that \<^verbatim>\<open>aspect_ratio\<close> is neither
  \<^verbatim>\<open>math.inf\<close> nor 0.
\<close>

definition max_double :: real where
  "max_double = (2 - 1 / 2 ^ 52) * 2 ^ 1023"

definition min_double :: real where
  "min_double = 1 / 2 ^ 1074"

section \<open>Non-finite angles\<close>


datatype nanreal = Fin real | NaN


fun nan1 :: "(real \<Rightarrow> real) \<Rightarrow> nanreal \<Rightarrow> nanreal" where
  "nan1 f (Fin x) = Fin (f x)"
| "nan1 f NaN = NaN"

fun nan2 :: "(real \<Rightarrow> real \<Rightarrow> real) \<Rightarrow> nanreal \<Rightarrow> nanreal \<Rightarrow> nanreal" where
  "nan2 f (Fin x) (Fin y) = Fin (f x y)"
| "nan2 f NaN y = NaN"
| "nan2 f x NaN = NaN"

fun min_nan :: "nanreal \<Rightarrow> nanreal \<Rightarrow> nanreal" where
  "min_nan (Fin x) (Fin y) = (if y < x then Fin y else Fin x)"
| "min_nan NaN y = NaN"
| "min_nan x NaN = x"

fun div_nan :: "nanreal \<Rightarrow> nanreal \<Rightarrow> py_error + nanreal" where
  "div_nan a (Fin b) = (if b = 0 then Inl ZeroDivisionError else Inr (nan1 (\<lambda>x. x / b) a))"
| "div_nan a NaN = Inr NaN"


text \<open>
  The mappings for an angle that may be non-finite. \<^verbatim>\<open>get_rotated_dimensions\<close> is
  lines 113-123 on these values. In \<^verbatim>\<open>get_original_dimensions\<close> a non-finite angle
  makes \<^verbatim>\<open>angle % 90\<close> and \<^verbatim>\<open>cos_2_angle\<close> \<^verbatim>\<open>nan\<close>, so the tests of lines 164
  and 193 are false and the general branch (lines 211-226) runs on the values computed
  from the angle; for a finite angle the result is the one of the exact reading.
\<close>

definition lift_result :: "py_error + (real \<times> real) \<Rightarrow> py_error + (nanreal \<times> nanreal)" where
  "lift_result r = (case r of Inl e \<Rightarrow> Inl e | Inr (w, h) \<Rightarrow> Inr (Fin w, Fin h))"


definition general_dimensions_any ::
  "real \<Rightarrow> real \<Rightarrow> nanreal \<Rightarrow> nanreal \<Rightarrow> nanreal \<Rightarrow> real option \<Rightarrow> real option \<Rightarrow> aspect
   \<Rightarrow> py_error + (nanreal \<times> nanreal)" where
  "general_dimensions_any rotated_width rotated_height cos_angle sin_angle cos_2_angle
      current_width current_height aspect_ratio =
     (case aspect_ratio of
        InfRatio \<Rightarrow>
          (let width = Fin (the current_width)
           in bind_err
                (div_nan (nan2 (-) (Fin rotated_width) (nan2 (*) width cos_angle)) sin_angle)
                (\<lambda>a.
              bind_err
                (div_nan (nan2 (-) (Fin rotated_height) (nan2 (*) width sin_angle)) cos_angle)
                (\<lambda>b.
              Inr (width, min_nan a b))))
      | Ratio r \<Rightarrow>
          if r = 0 then
            (let height = Fin (the current_height)
             in bind_err
                  (div_nan (nan2 (-) (Fin rotated_width) (nan2 (*) height sin_angle)) cos_angle)
                  (\<lambda>a.
                bind_err
                  (div_nan (nan2 (-) (Fin rotated_height) (nan2 (*) height cos_angle)) sin_angle)
                  (\<lambda>b.
                Inr (min_nan a b, height))))
          else
            bind_err
              (div_nan (Fin rotated_width) (nan2 (+) (nan2 (*) (Fin r) cos_angle) sin_angle))
              (\<lambda>a.
            bind_err
              (div_nan (Fin rotated_height) (nan2 (+) (nan2 (*) (Fin r) sin_angle) cos_angle))
              (\<lambda>b.
            (let height = min_nan a b in Inr (nan2 (*) height (Fin r), height))))
      | NoRatio \<Rightarrow>
          bind_err
            (div_nan
               (nan2 (-) (nan2 (*) (Fin rotated_width) cos_angle)
                  (nan2 (*) (Fin rotated_height) sin_angle))
               cos_2_angle)
            (\<lambda>q. let width = nan1 abs q
                 in bind_err
                      (div_nan (nan1 abs (nan2 (-) (Fin rotated_height) (nan2 (*) width sin_angle)))
                         cos_angle)
                      (\<lambda>height. Inr (width, height))))"


section \<open>Facts about the remainder\<close>

lemma py_mod_range:
  assumes "0 < m"
  shows "0 \<le> py_mod x m" and "py_mod x m < m"
proof -
  have "of_int \<lfloor>x / m\<rfloor> * m \<le> x"
    using assms of_int_floor_le [of "x / m"] by (simp only: pos_le_divide_eq)
  then show "0 \<le> py_mod x m" by (simp add: py_mod_def mult.commute)
  have "x / m < of_int \<lfloor>x / m\<rfloor> + 1" by linarith
  with assms have "x < (of_int \<lfloor>x / m\<rfloor> + 1) * m"
    by (simp only: pos_divide_less_eq)
  then show "py_mod x m < m" by (simp add: py_mod_def algebra_simps)
qed

lemma py_mod_decompose: "x = m * of_int \<lfloor>x / m\<rfloor> + py_mod x m"
  by (simp add: py_mod_def)

lemma py_mod_shift:
  assumes "m \<noteq> 0"
  shows "py_mod (x + m * of_int k) m = py_mod x m"
proof -
  have "(x + m * of_int k) / m = x / m + of_int k"
    using assms by (simp add: add_divide_distrib)
  then have "\<lfloor>(x + m * of_int k) / m\<rfloor> = \<lfloor>x / m\<rfloor> + k" by simp
  then show ?thesis by (simp add: py_mod_def algebra_simps)
qed

lemma py_mod_zero_iff:
  assumes "m \<noteq> 0"
  shows "py_mod x m = 0 \<longleftrightarrow> (\<exists>k::int. x = m * of_int k)"
proof
  assume "py_mod x m = 0"
  then have "x = m * of_int \<lfloor>x / m\<rfloor>" by (simp add: py_mod_def)
  then show "\<exists>k::int. x = m * of_int k" ..
next
  assume "\<exists>k::int. x = m * of_int k"
  then obtain k :: int where "x = m * of_int k" ..
  then show "py_mod x m = 0" using assms by (simp add: py_mod_def)
qed

lemma py_mod_multiple: "m \<noteq> 0 \<Longrightarrow> py_mod (m * of_int k) m = 0"
  by (simp add: py_mod_def)

lemma py_mod_small: "0 \<le> a \<Longrightarrow> a < m \<Longrightarrow> py_mod a m = a"
proof -
  assume "0 \<le> a" "a < m"
  then have "\<lfloor>a / m\<rfloor> = 0" by (simp add: floor_eq_iff)
  then show ?thesis by (simp add: py_mod_def)
qed

lemma normalize_range: "0 \<le> normalize_angle a" "normalize_angle a < 360"
  unfolding normalize_angle_def by (rule py_mod_range; simp)+

lemma normalize_small: "0 \<le> a \<Longrightarrow> a < 360 \<Longrightarrow> normalize_angle a = a"
proof -
  assume "0 \<le> a" "a < 360"
  then have "\<lfloor>a / 360\<rfloor> = 0" by (simp add: floor_eq_iff)
  then show ?thesis by (simp add: normalize_angle_def py_mod_def)
qed

lemma normalize_minus_90: "normalize_angle (- 90) = 270"
proof -
  have "\<lfloor>- (1 / 4 :: real)\<rfloor> = - 1" by (simp add: floor_eq_iff)
  then show ?thesis by (simp add: normalize_angle_def py_mod_def)
qed

section \<open>Trigonometric facts\<close>

lemma cos_shift_2pi_int: "cos (x - 2 * pi * of_int j) = cos x"
  by (simp add: cos_diff)

lemma sin_shift_2pi_int: "sin (x - 2 * pi * of_int j) = sin x"
  by (simp add: sin_diff)

lemma radians_normalized:
  "radians_angle a True = a * pi / 180 - 2 * pi * of_int \<lfloor>a / 360\<rfloor>"
  by (simp add: radians_angle_def math_radians_def normalize_angle_def py_mod_def field_simps)

lemma abs_cos_radians: "abs_cos (radians_angle a True) = \<bar>cos (a * pi / 180)\<bar>"
  unfolding abs_cos_def radians_normalized by (simp only: cos_shift_2pi_int)

lemma abs_sin_radians: "abs_sin (radians_angle a True) = \<bar>sin (a * pi / 180)\<bar>"
  unfolding abs_sin_def radians_normalized by (simp only: sin_shift_2pi_int)

lemma straight_angle_trig:
  assumes "py_mod a 180 = 0"
  shows "abs_cos (radians_angle a True) = 1" and "abs_sin (radians_angle a True) = 0"
proof -
  from assms obtain k :: int where k: "a = 180 * of_int k"
    using py_mod_zero_iff [of 180 a] by auto
  have e: "a * pi / 180 = pi * of_int k" by (simp add: k)
  have "\<bar>cos (pi * of_int k)\<bar> = 1" by simp
  then show "abs_cos (radians_angle a True) = 1" by (simp only: abs_cos_radians e)
  have "\<bar>sin (pi * of_int k)\<bar> = 0" by simp
  then show "abs_sin (radians_angle a True) = 0" by (simp only: abs_sin_radians e)
qed

lemma quarter_turn_trig:
  assumes "py_mod a 90 = 0" and "py_mod a 180 \<noteq> 0"
  shows "abs_cos (radians_angle a True) = 0" and "abs_sin (radians_angle a True) = 1"
proof -
  from assms(1) obtain k :: int where k: "a = 90 * of_int k"
    using py_mod_zero_iff [of 90 a] by auto
  have "odd k"
  proof
    assume "even k"
    then obtain j where "k = 2 * j" by (auto elim: evenE)
    then have "a = 180 * of_int j" by (simp add: k)
    then have "py_mod a 180 = 0" by (simp add: py_mod_multiple)
    with assms(2) show False by simp
  qed
  moreover have "a * pi / 180 = of_int k * (pi / 2)" by (simp add: k)
  ultimately have c: "cos (a * pi / 180) = 0"
    using cos_zero_iff_int [of "a * pi / 180"] by blast
  then show "abs_cos (radians_angle a True) = 0" by (simp add: abs_cos_radians)
  have "(sin (a * pi / 180))\<^sup>2 = 1"
    using sin_cos_squared_add [of "a * pi / 180"] c by simp
  then have "\<bar>sin (a * pi / 180)\<bar> = 1"
    by (metis real_sqrt_abs real_sqrt_one)
  then show "abs_sin (radians_angle a True) = 1" by (simp add: abs_sin_radians)
qed

lemma oblique_trig_pos:
  assumes "py_mod a 90 \<noteq> 0"
  shows "0 < abs_cos (radians_angle a True)" and "0 < abs_sin (radians_angle a True)"
proof -
  have "cos (a * pi / 180) \<noteq> 0"
  proof
    assume "cos (a * pi / 180) = 0"
    then obtain i :: int where "a * pi / 180 = of_int i * (pi / 2)"
      using cos_zero_iff_int [of "a * pi / 180"] by blast
    then have "a = 90 * of_int i" by simp
    then have "py_mod a 90 = 0" by (simp add: py_mod_multiple)
    with assms show False by simp
  qed
  then show "0 < abs_cos (radians_angle a True)" by (simp add: abs_cos_radians)
  have "sin (a * pi / 180) \<noteq> 0"
  proof
    assume "sin (a * pi / 180) = 0"
    then obtain i :: int where "a * pi / 180 = of_int i * pi"
      using sin_zero_iff_int2 [of "a * pi / 180"] by blast
    then have "a = 90 * of_int (2 * i)" by simp
    then have "py_mod a 90 = 0" by (simp only: py_mod_multiple)
    with assms show False by simp
  qed
  then show "0 < abs_sin (radians_angle a True)" by (simp add: abs_sin_radians)
qed

lemma diagonal_trig:
  assumes "cos (2 * t) = 0"
  shows "abs_sin t = abs_cos t" and "sqrt 2 * abs_cos t = 1"
proof -
  have eq: "(cos t)\<^sup>2 = (sin t)\<^sup>2" using assms by (simp add: cos_double)
  then have "\<bar>cos t\<bar> = \<bar>sin t\<bar>" by (metis real_sqrt_abs)
  then show "abs_sin t = abs_cos t" by (simp add: abs_cos_def abs_sin_def)
  have "2 * (cos t)\<^sup>2 = 1" using eq sin_cos_squared_add [of t] by simp
  then have "(sqrt 2 * \<bar>cos t\<bar>)\<^sup>2 = 1" by (simp add: power_mult_distrib)
  moreover have "0 \<le> sqrt 2 * \<bar>cos t\<bar>" by simp
  ultimately have "sqrt 2 * \<bar>cos t\<bar> = 1"
    by (metis abs_of_nonneg power2_eq_1_iff abs_1 abs_minus_cancel)
  then show "sqrt 2 * abs_cos t = 1" by (simp add: abs_cos_def)
qed

section \<open>Facts about the double reading\<close>

lemma round_half_even_eval:
  assumes "of_int n - 1 / 2 < x" "x < of_int n + 1 / 2"
  shows "round_half_even x = n"
proof (cases "of_int n \<le> x")
  case True
  then have "\<lfloor>x\<rfloor> = n" using assms by (simp add: floor_eq_iff)
  then show ?thesis using assms by (simp add: round_half_even_def Let_def)
next
  case False
  then have f: "\<lfloor>x\<rfloor> = n - 1" using assms by (simp add: floor_eq_iff)
  have "1 / 2 < x - of_int (n - 1)" using assms by simp
  then show ?thesis using f by (simp add: round_half_even_def Let_def)
qed

lemma rnd_eval:
  assumes "2 powi e \<le> \<bar>x\<bar>" "\<bar>x\<bar> < 2 powi (e + 1)"
    and "of_int n - 1 / 2 < x / 2 powi (e - 52)" "x / 2 powi (e - 52) < of_int n + 1 / 2"
  shows "rnd x = 2 powi (e - 52) * of_int n"
proof -
  have pos: "0 < \<bar>x\<bar>" using assms(1) by (smt (verit) zero_less_power_int)
  have "(2::real) powr real_of_int e = 2 powi e"
    and "(2::real) powr (real_of_int e + 1) = 2 powi (e + 1)"
    using powr_real_of_int' [of "2::real" e] powr_real_of_int' [of "2::real" "e + 1"]
    by simp_all
  then have "\<lfloor>log 2 \<bar>x\<bar>\<rfloor> = e"
    using assms(1,2) pos by (simp add: floor_log_eq_powr_iff)
  moreover have "round_half_even (x / 2 powi (e - 52)) = n"
    using assms(3,4) by (rule round_half_even_eval)
  ultimately show ?thesis using pos by (simp add: rnd_def Let_def)
qed

lemma rnd_360: "rnd (- (1 / 2 ^ 70) + 360) = 360"
  using rnd_eval [of 8 "- (1 / 2 ^ 70) + 360" "360 * 2 ^ 44"]
  by (simp add: power_int_minus field_simps)

lemma float_rem_exact:
  assumes "0 < m"
  shows "float_rem (\<lambda>x. x) x m = py_mod x m"
proof (cases "0 \<le> x / m")
  case True
  have "0 \<le> py_mod x m" using assms by (rule py_mod_range)
  then show ?thesis using True assms
    by (auto simp add: float_rem_def c_fmod_def py_mod_def Let_def)
next
  case False
  show ?thesis
  proof (cases "of_int \<lfloor>x / m\<rfloor> = x / m")
    case True
    then have "\<lceil>x / m\<rceil> = \<lfloor>x / m\<rfloor>" by (metis ceiling_of_int)
    moreover have "m * of_int \<lfloor>x / m\<rfloor> = m * (x / m)" by (simp only: True)
    then have "x = m * of_int \<lfloor>x / m\<rfloor>" using assms by simp
    ultimately show ?thesis using False
      by (simp add: float_rem_def c_fmod_def py_mod_def Let_def)
  next
    case ni: False
    then have c: "\<lceil>x / m\<rceil> = \<lfloor>x / m\<rfloor> + 1"
      by (metis ceiling_altdef)
    have lt: "py_mod x m < m" using assms by (rule py_mod_range)
    have "c_fmod x m = py_mod x m - m"
      using False c by (simp add: c_fmod_def py_mod_def algebra_simps)
    then show ?thesis using lt assms
      by (simp add: float_rem_def Let_def)
  qed
qed

lemma rnd_zero: "rnd 0 = 0"
  by (simp add: rnd_def)

lemma rnd_50: "rnd 50 = 50"
  using rnd_eval [of 5 50 "50 * 2 ^ 47"] by (simp add: power_int_minus field_simps)

lemma rnd_100: "rnd 100 = 100"
  using rnd_eval [of 6 100 "100 * 2 ^ 46"] by (simp add: power_int_minus field_simps)

lemma rnd_100_cos_90:
  "rnd (100 * cos_90_double) = 7762121250033611 / 2 ^ 100"
  unfolding cos_90_double_def
  using rnd_eval [of "- 48" "100 * (4967757600021511 / 2 ^ 106)" 7762121250033611]
  by (simp add: power_int_minus field_simps)

lemma rnd_50_cos_90:
  "rnd (50 * cos_90_double) = 7762121250033611 / 2 ^ 101"
  unfolding cos_90_double_def
  using rnd_eval [of "- 49" "50 * (4967757600021511 / 2 ^ 106)" 7762121250033611]
  by (simp add: power_int_minus field_simps)

lemma rnd_width_90: "rnd (7762121250033611 / 2 ^ 100 + 50) = 50 + 1 / 2 ^ 47"
  using rnd_eval [of 5 "7762121250033611 / 2 ^ 100 + 50" "50 * 2 ^ 47 + 1"]
  by (simp add: power_int_minus field_simps)

lemma rnd_height_90: "rnd (7762121250033611 / 2 ^ 101 + 100) = 100"
  using rnd_eval [of 6 "7762121250033611 / 2 ^ 101 + 100" "100 * 2 ^ 46"]
  by (simp add: power_int_minus field_simps)

lemma rotated_double_90:
  "get_rotated_dimensions_fl rnd 100 50 cos_90_double 1 = (50 + 1 / 2 ^ 47, 100)"
  by (simp only: get_rotated_dimensions_fl_def Let_def mult_1_right rnd_50 rnd_100
      rnd_100_cos_90 rnd_50_cos_90 rnd_width_90 rnd_height_90)

lemma rotated_double_0:
  "get_rotated_dimensions_fl rnd 100 50 1 0 = (100, 50)"
  by (simp only: get_rotated_dimensions_fl_def Let_def mult_1_right mult_zero_right
      rnd_50 rnd_100 rnd_zero add_0_right)

lemma rotated_exact:
  "get_rotated_dimensions width height angle =
     get_rotated_dimensions_fl (\<lambda>x. x) width height
       (abs_cos (radians_angle angle True)) (abs_sin (radians_angle angle True))"
  by (simp add: get_rotated_dimensions_def get_rotated_dimensions_fl_def Let_def)

lemma regime_exact:
  "angle_regime a = angle_regime_fl (\<lambda>x. x) a (cos (2 * radians_angle a True))"
  by (simp add: angle_regime_def angle_regime_fl_def float_rem_exact Let_def)

lemma general_unconstrained_exact:
  "general_dimensions rw rh c s c2 cw ch NoRatio
     = general_unconstrained_fl (\<lambda>x. x) rw rh c s c2"
  by (simp add: general_dimensions_def general_unconstrained_fl_def Let_def)

lemma regime_double_45: "angle_regime_fl rnd 45 cos_90_double = GENERAL"
proof -
  have "c_fmod 45 90 = 45" by (simp add: c_fmod_def)
  then have "float_rem rnd 45 90 = 45" by (simp add: float_rem_def Let_def)
  then show ?thesis by (simp add: angle_regime_fl_def cos_90_double_def)
qed

lemma py_div_nonzero: "b \<noteq> 0 \<Longrightarrow> py_div a b = Inr (a / b)"
  by (simp add: py_div_def)

lemma bind_err_Inr: "bind_err (Inr x) f = f x"
  by (simp add: bind_err_def)

lemma double_45_step_1: "rnd (100 * cos_45_double) = 621977702395095 / 2 ^ 43"
  unfolding cos_45_double_def
  using rnd_eval [of 6 "100 * (6369051672525773 / 2 ^ 53)" 4975821619160760]
  by (simp add: power_int_minus field_simps)

lemma double_45_step_2: "rnd (50 * sin_45_double) = 4975821619160759 / 2 ^ 47"
  unfolding sin_45_double_def
  using rnd_eval [of 5 "50 * (1592262918131443 / 2 ^ 51)" 4975821619160759]
  by (simp add: power_int_minus field_simps)

lemma double_45_step_3:
  "rnd (621977702395095 / 2 ^ 43 - 4975821619160759 / 2 ^ 47) = 4975821619160761 / 2 ^ 47"
  using rnd_eval [of 5 "621977702395095 / 2 ^ 43 - 4975821619160759 / 2 ^ 47" 4975821619160761]
  by (simp add: power_int_minus field_simps)

lemma double_45_step_4:
  "rnd (4975821619160761 / 2 ^ 47 / cos_90_double) = 577396504591252736"
  unfolding cos_90_double_def
  using rnd_eval [of 59 "4975821619160761 / 2 ^ 47 / (4967757600021511 / 2 ^ 106)"
      4510910192119162]
  by (simp add: power_int_minus field_simps)

lemma double_45_step_5: "rnd (577396504591252736 * sin_45_double) = 408280983829884288"
  unfolding sin_45_double_def
  using rnd_eval [of 58 "577396504591252736 * (1592262918131443 / 2 ^ 51)" 6379390372341942]
  by (simp add: power_int_minus field_simps)

lemma double_45_step_6: "rnd (50 - 408280983829884288) = - 408280983829884224"
  using rnd_eval [of 58 "50 - 408280983829884288" "- 6379390372341941"]
  by (simp add: power_int_minus field_simps)

lemma double_45_step_7: "rnd (408280983829884224 / cos_45_double) = 577396504591252608"
  unfolding cos_45_double_def
  using rnd_eval [of 59 "408280983829884224 / (6369051672525773 / 2 ^ 53)" 4510910192119161]
  by (simp add: power_int_minus field_simps)

lemma general_double_45:
  "general_unconstrained_fl rnd 100 50 cos_45_double sin_45_double cos_90_double
     = Inr (577396504591252736, 577396504591252608)"
proof -
  have nz: "cos_90_double \<noteq> 0" "cos_45_double \<noteq> 0"
    by (simp_all add: cos_90_double_def cos_45_double_def)
  have a: "\<bar>577396504591252736 :: real\<bar> = 577396504591252736"
    and b: "\<bar>- 408280983829884224 :: real\<bar> = 408280983829884224" by simp_all
  show ?thesis
    by (simp only: general_unconstrained_fl_def double_45_step_1 double_45_step_2
        double_45_step_3 py_div_nonzero [OF nz(1)] py_div_nonzero [OF nz(2)] bind_err_Inr
        double_45_step_4 Let_def a double_45_step_5 double_45_step_6 b double_45_step_7)
qed

section \<open>The mappings unfolded\<close>

lemma rotated_dimensions_unfold:
  "get_rotated_dimensions width height angle =
     (width * abs_cos (radians_angle angle True) + height * abs_sin (radians_angle angle True),
      height * abs_cos (radians_angle angle True) + width * abs_sin (radians_angle angle True))"
  by (simp add: get_rotated_dimensions_def Let_def)

lemma regime_right_angle: "angle_regime a = RIGHT_ANGLE \<longleftrightarrow> py_mod a 90 = 0"
  by (simp add: angle_regime_def Let_def)

lemma regime_family_45:
  "angle_regime a = FAMILY_45 \<longleftrightarrow> py_mod a 90 \<noteq> 0 \<and> cos (2 * radians_angle a True) = 0"
  by (simp add: angle_regime_def Let_def)

lemma regime_general:
  "angle_regime a = GENERAL \<longleftrightarrow> py_mod a 90 \<noteq> 0 \<and> cos (2 * radians_angle a True) \<noteq> 0"
  by (simp add: angle_regime_def Let_def)

section \<open>Normalisation\<close>

text \<open>
  In the exact reading \<^verbatim>\<open>normalize_angle\<close> is the remainder modulo 360: the result
  lies in [0, 360), differs from the angle by a whole multiple of 360, and does not
  change when a whole multiple of 360 is added to the angle.
\<close>

lemma normalize_angle_exact:
  "0 \<le> normalize_angle a \<and> normalize_angle a < 360
   \<and> (\<exists>j::int. a = 360 * of_int j + normalize_angle a)
   \<and> normalize_angle (- 90) = 270
   \<and> normalize_angle (a + 360 * of_int k) = normalize_angle a"
proof -
  have "\<exists>j::int. a = 360 * of_int j + normalize_angle a"
    unfolding normalize_angle_def using py_mod_decompose [of a 360] by blast
  moreover have "normalize_angle (a + 360 * of_int k) = normalize_angle a"
    unfolding normalize_angle_def by (rule py_mod_shift) simp
  ultimately show ?thesis using normalize_range [of a] normalize_minus_90 by simp
qed

text \<open>
  C7. In doubles the result of \<^verbatim>\<open>normalize_angle\<close> is not always in [0, 360): for
  the angle \<open>-2^-70\<close> C's \<^verbatim>\<open>fmod\<close> returns the angle itself, the sum with 360 is
  rounded, and the function returns 360.
\<close>

theorem normalize_double_out_of_range:
  "normalize_angle_double (- (1 / 2 ^ 70)) = 360
   \<and> \<not> normalize_angle_double (- (1 / 2 ^ 70)) < 360"
proof -
  have "\<lceil>- (1 / (2 ^ 70 * 360)) :: real\<rceil> = 0" by (simp add: ceiling_eq_iff)
  then have "c_fmod (- (1 / 2 ^ 70)) 360 = - (1 / 2 ^ 70)" by (simp add: c_fmod_def)
  then have "normalize_angle_double (- (1 / 2 ^ 70)) = rnd (- (1 / 2 ^ 70) + 360)"
    unfolding normalize_angle_double_def float_rem_def Let_def by simp
  then have "normalize_angle_double (- (1 / 2 ^ 70)) = 360" by (simp only: rnd_360)
  then show ?thesis by (simp only:) simp
qed

section \<open>Forward mapping\<close>

text \<open>
  C1 as stated fails in doubles at 90 degrees: \<^verbatim>\<open>math.cos(math.radians(90))\<close> is the
  double \<open>cos_90_double\<close> (about 6.1e-17) and the sine is 1, and lines
  119-123 return \<open>(50 + 2^-47, 100)\<close>, not (50, 100).
\<close>

theorem right_angle_identity_counterexample:
  "get_rotated_dimensions_fl rnd 100 50 cos_90_double 1 \<noteq> (50, 100)"
  by (simp only: rotated_double_90) simp

text \<open>
  C1, amended. For every width, height and angle \<^verbatim>\<open>get_rotated_dimensions\<close>
  returns \<open>(width * |cos th| + height * |sin th|, height * |cos th| + width * |sin th|)\<close>
  with \<open>th\<close> the normalised angle in radians, the products and sums being rounded in
  doubles and exact in the exact reading. For 100 by 50 at angle 0 the result is
  (100, 50) in both readings. At angle 90 it is (50, 100) in the exact reading and
  \<open>(50 + 2^-47, 100)\<close> in doubles, within 1e-14 of (50, 100).
\<close>

theorem rotated_dimensions_formula:
  "get_rotated_dimensions width height angle =
     (width * \<bar>cos (normalize_angle angle * pi / 180)\<bar>
        + height * \<bar>sin (normalize_angle angle * pi / 180)\<bar>,
      height * \<bar>cos (normalize_angle angle * pi / 180)\<bar>
        + width * \<bar>sin (normalize_angle angle * pi / 180)\<bar>)
   \<and> get_rotated_dimensions width height angle =
       get_rotated_dimensions_fl (\<lambda>x. x) width height
         (abs_cos (radians_angle angle True)) (abs_sin (radians_angle angle True))
   \<and> get_rotated_dimensions 100 50 0 = (100, 50)
   \<and> get_rotated_dimensions_fl rnd 100 50 1 0 = (100, 50)
   \<and> get_rotated_dimensions 100 50 90 = (50, 100)
   \<and> get_rotated_dimensions_fl rnd 100 50 cos_90_double 1 = (50 + 1 / 2 ^ 47, 100)
   \<and> \<bar>(50 + 1 / 2 ^ 47) - 50 :: real\<bar> < 1 / 10 ^ 14"
proof -
  have general: "get_rotated_dimensions width height angle =
     (width * \<bar>cos (normalize_angle angle * pi / 180)\<bar>
        + height * \<bar>sin (normalize_angle angle * pi / 180)\<bar>,
      height * \<bar>cos (normalize_angle angle * pi / 180)\<bar>
        + width * \<bar>sin (normalize_angle angle * pi / 180)\<bar>)"
    by (simp add: rotated_dimensions_unfold abs_cos_def abs_sin_def radians_angle_def
        math_radians_def)
  have "py_mod 0 180 = 0" by (simp add: py_mod_def)
  then have zero: "get_rotated_dimensions 100 50 0 = (100, 50)"
    by (simp add: rotated_dimensions_unfold straight_angle_trig)
  have "py_mod 90 90 = 0" and "py_mod 90 180 \<noteq> 0"
    by (simp_all add: py_mod_def py_mod_small)
  then have quarter: "get_rotated_dimensions 100 50 90 = (50, 100)"
    by (simp add: rotated_dimensions_unfold quarter_turn_trig)
  have near: "\<bar>(50 + 1 / 2 ^ 47) - 50 :: real\<bar> < 1 / 10 ^ 14" by simp
  from general rotated_exact zero rotated_double_0 quarter rotated_double_90 near
  show ?thesis by (intro conjI)
qed

section \<open>Classification\<close>

text \<open>
  C8. \<^verbatim>\<open>get_quadrant_or_axis\<close> is a total function into the eight variants, each
  variant is returned for exactly one range of the normalised angle, and an axis variant
  is returned if and only if the normalised angle is exactly 0, 90, 180 or 270.
\<close>

theorem classify_total_axis_iff:
  "(get_quadrant_or_axis a = POSITIVE_X_AXIS) = (normalize_angle a = 0)
   \<and> (get_quadrant_or_axis a = POSITIVE_Y_AXIS) = (normalize_angle a = 90)
   \<and> (get_quadrant_or_axis a = NEGATIVE_X_AXIS) = (normalize_angle a = 180)
   \<and> (get_quadrant_or_axis a = NEGATIVE_Y_AXIS) = (normalize_angle a = 270)
   \<and> (get_quadrant_or_axis a = QUADRANT_1) = (0 < normalize_angle a \<and> normalize_angle a < 90)
   \<and> (get_quadrant_or_axis a = QUADRANT_2) = (90 < normalize_angle a \<and> normalize_angle a < 180)
   \<and> (get_quadrant_or_axis a = QUADRANT_3) = (180 < normalize_angle a \<and> normalize_angle a < 270)
   \<and> (get_quadrant_or_axis a = QUADRANT_4) = (270 < normalize_angle a \<and> normalize_angle a < 360)
   \<and> (get_quadrant_or_axis a
          \<in> {POSITIVE_X_AXIS, POSITIVE_Y_AXIS, NEGATIVE_X_AXIS, NEGATIVE_Y_AXIS})
       = (normalize_angle a \<in> {0, 90, 180, 270})"
  using normalize_range [of a]
  by (auto simp add: get_quadrant_or_axis_def Let_def)

theorem classify_total_axis_iff_witness:
  "get_quadrant_or_axis (- 90) = NEGATIVE_Y_AXIS \<and> normalize_angle (- 90) = 270"
  using classify_total_axis_iff [of "- 90"] normalize_minus_90 by simp

section \<open>Inverse mapping: the round trip\<close>

lemma right_angle_round_trip:
  assumes "0 < h" "0 < r" "py_mod a 90 = 0"
  shows "right_angle_dimensions
           (r * h * abs_cos (radians_angle a True) + h * abs_sin (radians_angle a True))
           (h * abs_cos (radians_angle a True) + r * h * abs_sin (radians_angle a True))
           a cw ch (Ratio r) = Inr (h * r, h)"
proof (cases "py_mod a 180 = 0")
  case True
  then show ?thesis using assms
    by (simp add: right_angle_dimensions_def straight_angle_trig bind_err_def py_div_def
        mult.commute)
next
  case False
  then show ?thesis using assms
    by (simp add: right_angle_dimensions_def quarter_turn_trig bind_err_def py_div_def
        mult.commute)
qed

lemma family_45_round_trip:
  assumes "0 < h" "0 < r" "cos (2 * t) = 0"
  shows "family_45_dimensions (r * h * abs_cos t + h * abs_sin t)
           (h * abs_cos t + r * h * abs_sin t) cw ch (Ratio r) = Inr (h * r, h)"
proof -
  have s: "abs_sin t = abs_cos t" and c: "sqrt 2 * abs_cos t = 1"
    using assms(3) by (rule diagonal_trig)+
  have "min (r * h * abs_cos t + h * abs_sin t) (h * abs_cos t + r * h * abs_sin t)
        = h * (r + 1) * abs_cos t"
    by (simp add: s algebra_simps)
  then have "sqrt 2 * min (r * h * abs_cos t + h * abs_sin t)
                  (h * abs_cos t + r * h * abs_sin t) = h * (r + 1) * (sqrt 2 * abs_cos t)"
    by (simp only: mult_ac)
  then have m: "sqrt 2 * min (r * h * abs_cos t + h * abs_sin t)
                  (h * abs_cos t + r * h * abs_sin t) = h * (r + 1)"
    by (simp only: c mult_1_right)
  have "r + 1 \<noteq> 0" using assms by simp
  then have y: "py_div (h * (r + 1)) (r + 1) = Inr h" by (simp add: py_div_def)
  have "r \<noteq> 0" using assms by simp
  then show ?thesis
    unfolding family_45_dimensions_def m Let_def bind_err_def
    by (simp add: y)
qed

lemma general_round_trip:
  assumes "0 < h" "0 < r" "0 < c" "0 < s"
  shows "general_dimensions (r * h * c + h * s) (h * c + r * h * s) c s c2
           cw ch (Ratio r) = Inr (h * r, h)"
proof -
  have e1: "r * h * c + h * s = h * (r * c + s)" and e2: "h * c + r * h * s = h * (r * s + c)"
    by (simp_all add: algebra_simps)
  have "0 < r * c + s" and "0 < r * s + c" using assms by (simp_all add: add_pos_pos)
  then have "r * c + s \<noteq> 0" and "r * s + c \<noteq> 0" by simp_all
  then have y1: "py_div (h * (r * c + s)) (r * c + s) = Inr h"
    and y2: "py_div (h * (r * s + c)) (r * s + c) = Inr h"
    by (simp_all add: py_div_def)
  have "r \<noteq> 0" using assms by simp
  then show ?thesis
    unfolding general_dimensions_def e1 e2 bind_err_def Let_def
    by (simp add: y1 y2)
qed

text \<open>
  C2. Round trip: for positive width and height and every angle, the inverse mapping
  applied to the output of the forward mapping at the same angle, with known dimensions
  in the original aspect ratio (any positive multiple \<open>k\<close> of the original width and
  height, the originals themselves for \<open>k = 1\<close>), returns the original width and
  height; over the reals the equality is exact. The known dimensions enter only
  through their quotient, so the result is recovered from the rotated box.
\<close>

theorem round_trip_law:
  assumes "0 < width" and "0 < height" and "0 < k"
  shows "get_original_dimensions
           (fst (get_rotated_dimensions width height angle))
           (snd (get_rotated_dimensions width height angle))
           angle (Some (k * width)) (Some (k * height))
         = Inr (width, height)"
proof -
  define r where "r = width / height"
  have r: "0 < r" and w: "r * height = width" using assms by (simp_all add: r_def)
  have asp: "aspect_ratio_of (Some (k * width)) (Some (k * height)) = Ratio r"
    using assms by (simp add: r_def)
  have rd: "get_rotated_dimensions width height angle =
      (r * height * abs_cos (radians_angle angle True)
         + height * abs_sin (radians_angle angle True),
       height * abs_cos (radians_angle angle True)
         + r * height * abs_sin (radians_angle angle True))"
    by (simp add: rotated_dimensions_unfold w)
  have res: "Inr (height * r, height) = (Inr (width, height) :: py_error + real \<times> real)"
    using w by (simp add: mult.commute)
  show ?thesis
  proof (cases "angle_regime angle")
    case RIGHT_ANGLE
    then have "py_mod angle 90 = 0" by (simp add: regime_right_angle)
    from right_angle_round_trip [OF assms(2) r this] show ?thesis
      unfolding get_original_dimensions_def Let_def rd fst_conv snd_conv asp RIGHT_ANGLE
      by (simp add: res)
  next
    case FAMILY_45
    then have "cos (2 * radians_angle angle True) = 0" by (simp add: regime_family_45)
    from family_45_round_trip [OF assms(2) r this] show ?thesis
      unfolding get_original_dimensions_def Let_def rd fst_conv snd_conv asp FAMILY_45
      by (simp add: res)
  next
    case GENERAL
    then have "py_mod angle 90 \<noteq> 0" by (simp add: regime_general)
    then have "0 < abs_cos (radians_angle angle True)"
      and "0 < abs_sin (radians_angle angle True)"
      by (rule oblique_trig_pos)+
    from general_round_trip [OF assms(2) r this] show ?thesis
      unfolding get_original_dimensions_def Let_def rd fst_conv snd_conv asp GENERAL
      by (simp add: res)
  qed
qed

theorem round_trip_law_witness:
  "(0::real) < 100 \<and> (0::real) < 50 \<and> (0::real) < 3 \<and>
   get_original_dimensions
     (fst (get_rotated_dimensions 100 50 37)) (snd (get_rotated_dimensions 100 50 37))
     37 (Some 300) (Some 150) = Inr (100, 50)
   \<and> get_original_dimensions
     (fst (get_rotated_dimensions 100 50 37)) (snd (get_rotated_dimensions 100 50 37))
     37 (Some 100) (Some 50) = Inr (100, 50)"
  using round_trip_law [of 100 50 3 37] round_trip_law [of 100 50 1 37] by simp

section \<open>Inverse mapping: the result in each regime\<close>

lemma original_dimensions_unfold:
  "get_original_dimensions rw rh a cw ch =
     (case angle_regime a of
        RIGHT_ANGLE \<Rightarrow> right_angle_dimensions rw rh a cw ch (aspect_ratio_of cw ch)
      | FAMILY_45 \<Rightarrow> family_45_dimensions rw rh cw ch (aspect_ratio_of cw ch)
      | GENERAL \<Rightarrow>
          general_dimensions rw rh (abs_cos (radians_angle a True))
            (abs_sin (radians_angle a True)) (cos (2 * radians_angle a True))
            cw ch (aspect_ratio_of cw ch))"
  by (simp add: get_original_dimensions_def Let_def)

lemma right_angle_inf:
  "right_angle_dimensions rw rh a (Some w) ch InfRatio =
     Inr (w, if py_mod a 180 = 0 then rh else rw)"
  by (simp add: right_angle_dimensions_def)

lemma family_45_inf:
  "family_45_dimensions rw rh (Some w) ch InfRatio = Inr (w, sqrt 2 * min rw rh - w)"
  by (simp add: family_45_dimensions_def Let_def)

lemma general_inf:
  assumes "c \<noteq> 0" "s \<noteq> 0"
  shows "general_dimensions rw rh c s c2 (Some w) ch InfRatio =
     Inr (w, min ((rw - w * c) / s) ((rh - w * s) / c))"
  using assms by (simp add: general_dimensions_def Let_def bind_err_def py_div_def)

lemma original_dimensions_inf:
  assumes "aspect_ratio_of (Some w) ch = InfRatio"
  shows "get_original_dimensions rw rh a (Some w) ch =
     Inr (w, case angle_regime a of
               RIGHT_ANGLE \<Rightarrow> (if py_mod a 180 = 0 then rh else rw)
             | FAMILY_45 \<Rightarrow> sqrt 2 * min rw rh - w
             | GENERAL \<Rightarrow>
                 min ((rw - w * abs_cos (radians_angle a True)) / abs_sin (radians_angle a True))
                     ((rh - w * abs_sin (radians_angle a True)) / abs_cos (radians_angle a True)))"
proof (cases "angle_regime a")
  case RIGHT_ANGLE
  then show ?thesis by (simp add: original_dimensions_unfold assms right_angle_inf)
next
  case FAMILY_45
  then show ?thesis by (simp add: original_dimensions_unfold assms family_45_inf)
next
  case GENERAL
  then have "py_mod a 90 \<noteq> 0" by (simp add: regime_general)
  then have "abs_cos (radians_angle a True) \<noteq> 0" and "abs_sin (radians_angle a True) \<noteq> 0"
    using oblique_trig_pos [of a] by simp_all
  then show ?thesis using GENERAL
    by (simp add: original_dimensions_unfold assms general_inf)
qed

lemma general_none:
  assumes "c \<noteq> 0" "c2 \<noteq> 0"
  shows "general_dimensions rw rh c s c2 cw ch NoRatio =
           Inr (\<bar>(rw * c - rh * s) / c2\<bar>, \<bar>rh - \<bar>(rw * c - rh * s) / c2\<bar> * s\<bar> / c)"
  using assms by (simp add: general_dimensions_def bind_err_def py_div_def Let_def)

lemma family_45_none:
  "family_45_dimensions rw rh cw ch NoRatio
     = Inr (sqrt 2 * min rw rh / 2, sqrt 2 * min rw rh / 2)"
  by (simp add: family_45_dimensions_def Let_def)

lemma original_dimensions_none:
  "get_original_dimensions rw rh a None None =
     (case angle_regime a of
        RIGHT_ANGLE \<Rightarrow> if py_mod a 180 = 0 then Inr (rw, rh) else Inr (rh, rw)
      | FAMILY_45 \<Rightarrow> Inr (sqrt 2 * min rw rh / 2, sqrt 2 * min rw rh / 2)
      | GENERAL \<Rightarrow>
          Inr (\<bar>(rw * abs_cos (radians_angle a True) - rh * abs_sin (radians_angle a True))
                   / cos (2 * radians_angle a True)\<bar>,
               \<bar>rh - \<bar>(rw * abs_cos (radians_angle a True)
                            - rh * abs_sin (radians_angle a True))
                          / cos (2 * radians_angle a True)\<bar>
                        * abs_sin (radians_angle a True)\<bar>
                   / abs_cos (radians_angle a True)))"
proof (cases "angle_regime a")
  case RIGHT_ANGLE
  then show ?thesis by (simp add: original_dimensions_unfold right_angle_dimensions_def)
next
  case FAMILY_45
  then show ?thesis by (simp add: original_dimensions_unfold family_45_none)
next
  case GENERAL
  then have "py_mod a 90 \<noteq> 0" and c2: "cos (2 * radians_angle a True) \<noteq> 0"
    by (simp_all add: regime_general)
  then have "abs_cos (radians_angle a True) \<noteq> 0" using oblique_trig_pos [of a] by simp
  with c2 GENERAL show ?thesis by (simp add: original_dimensions_unfold general_none)
qed

lemma original_dimensions_zero_ratio:
  assumes "aspect_ratio_of cw (Some h) = Ratio 0"
  shows "get_original_dimensions rw rh a cw (Some h) =
     Inr (case angle_regime a of
            RIGHT_ANGLE \<Rightarrow> (if py_mod a 180 = 0 then rw else rh)
          | FAMILY_45 \<Rightarrow> sqrt 2 * min rw rh - h
          | GENERAL \<Rightarrow>
              min ((rw - h * abs_sin (radians_angle a True)) / abs_cos (radians_angle a True))
                  ((rh - h * abs_cos (radians_angle a True)) / abs_sin (radians_angle a True)),
          h)"
proof (cases "angle_regime a")
  case RIGHT_ANGLE
  then show ?thesis
    by (simp add: original_dimensions_unfold assms right_angle_dimensions_def)
next
  case FAMILY_45
  then show ?thesis
    by (simp add: original_dimensions_unfold assms family_45_dimensions_def Let_def)
next
  case GENERAL
  then have "py_mod a 90 \<noteq> 0" by (simp add: regime_general)
  then have "abs_cos (radians_angle a True) \<noteq> 0" and "abs_sin (radians_angle a True) \<noteq> 0"
    using oblique_trig_pos [of a] by simp_all
  then show ?thesis using GENERAL
    by (simp add: original_dimensions_unfold assms general_dimensions_def Let_def
        bind_err_def py_div_def)
qed

section \<open>Inverse mapping: a known width with a zero or missing height\<close>

text \<open>
  C10. With a known width and a known height of exactly 0 the aspect ratio is infinite:
  the call returns what it returns when the height argument is omitted, for every
  rotated box and angle, and in all three regimes the result is a pair whose width is
  the given known width.
\<close>

theorem zero_height_ignored:
  "get_original_dimensions rw rh a (Some w) (Some 0)
     = get_original_dimensions rw rh a (Some w) None
   \<and> aspect_ratio_of (Some w) (Some 0) = InfRatio
   \<and> (\<exists>h. get_original_dimensions rw rh a (Some w) (Some 0) = Inr (w, h))"
proof -
  have "aspect_ratio_of (Some w) (Some 0) = InfRatio"
    and "aspect_ratio_of (Some w) None = InfRatio" by simp_all
  then show ?thesis by (simp add: original_dimensions_inf)
qed

section \<open>Inverse mapping: sign of the result\<close>

lemma regime_30: "angle_regime 30 = GENERAL"
proof -
  have m: "py_mod 30 90 = 30" by (simp add: py_mod_small)
  have "2 * radians_angle 30 True = pi / 3"
    by (simp add: radians_angle_def math_radians_def normalize_small)
  then have "cos (2 * radians_angle 30 True) = 1 / 2" by (simp only: cos_60)
  with m show ?thesis by (simp add: regime_general)
qed

lemma trig_30:
  "abs_cos (radians_angle 30 True) = sqrt 3 / 2" "abs_sin (radians_angle 30 True) = 1 / 2"
proof -
  have r: "radians_angle 30 True = pi / 6"
    by (simp add: radians_angle_def math_radians_def normalize_small)
  have "\<bar>cos (pi / 6)\<bar> = sqrt 3 / 2" and "\<bar>sin (pi / 6)\<bar> = 1 / 2"
    by (simp_all add: cos_30 sin_30)
  then show "abs_cos (radians_angle 30 True) = sqrt 3 / 2"
    and "abs_sin (radians_angle 30 True) = 1 / 2"
    by (simp_all only: abs_cos_def abs_sin_def r)
qed

lemma fitting_remainder_iff:
  assumes "angle_regime a \<noteq> RIGHT_ANGLE"
  shows "(0 \<le> (case angle_regime a of
            RIGHT_ANGLE \<Rightarrow> x
          | FAMILY_45 \<Rightarrow> sqrt 2 * min p q - k
          | GENERAL \<Rightarrow>
              min ((p - k * abs_cos (radians_angle a True)) / abs_sin (radians_angle a True))
                  ((q - k * abs_sin (radians_angle a True)) / abs_cos (radians_angle a True))))
         = (k * abs_cos (radians_angle a True) \<le> p \<and> k * abs_sin (radians_angle a True) \<le> q)"
proof (cases "angle_regime a")
  case RIGHT_ANGLE
  with assms show ?thesis by simp
next
  case FAMILY_45
  then have "cos (2 * radians_angle a True) = 0" by (simp add: regime_family_45)
  then have s: "abs_sin (radians_angle a True) = abs_cos (radians_angle a True)"
    and c: "sqrt 2 * abs_cos (radians_angle a True) = 1"
    by (rule diagonal_trig)+
  have "(k * abs_cos (radians_angle a True) \<le> min p q)
        = (sqrt 2 * (k * abs_cos (radians_angle a True)) \<le> sqrt 2 * min p q)"
    by (simp only: mult_le_cancel_left_pos real_sqrt_gt_0_iff zero_less_numeral)
  also have "sqrt 2 * (k * abs_cos (radians_angle a True))
               = k * (sqrt 2 * abs_cos (radians_angle a True))" by (simp only: mult_ac)
  finally have "(k * abs_cos (radians_angle a True) \<le> min p q) = (k \<le> sqrt 2 * min p q)"
    by (simp only: c mult_1_right)
  with FAMILY_45 show ?thesis by (simp add: s)
next
  case GENERAL
  then have "py_mod a 90 \<noteq> 0" by (simp add: regime_general)
  then have "0 < abs_cos (radians_angle a True)" and "0 < abs_sin (radians_angle a True)"
    by (rule oblique_trig_pos)+
  with GENERAL show ?thesis by (simp add: zero_le_divide_iff)
qed

text \<open>
  C4 as stated fails: for a rotated box of 100 by 100 at 30 degrees and a known width
  of 200 (all non-negative) the returned height is \<open>200 - 200 * sqrt 3\<close>, which is
  negative.
\<close>

theorem nonneg_counterexample:
  "get_original_dimensions 100 100 30 (Some 200) None = Inr (200, 200 - 200 * sqrt 3)
   \<and> 200 - 200 * sqrt 3 < 0"
proof -
  have "1 < sqrt 3" by simp
  then have neg: "200 - 200 * sqrt 3 < 0" by simp
  then have "min ((100 - 200 * (sqrt 3 / 2)) / (1 / 2)) ((100 - 200 * (1 / 2)) / (sqrt 3 / 2))
               = 200 - 200 * sqrt 3"
    by simp
  then have "get_original_dimensions 100 100 30 (Some 200) None
               = Inr (200, 200 - 200 * sqrt 3)"
    by (simp only: original_dimensions_inf [of 200 None, OF aspect_ratio_of.simps(2)]
        regime_30 regime.case trig_30)
  with neg show ?thesis by simp
qed

lemma right_angle_ratio_nonneg:
  assumes "0 \<le> rw" "0 \<le> rh" "0 < r"
  shows "\<exists>w h. right_angle_dimensions rw rh a cw ch (Ratio r) = Inr (w, h) \<and> 0 \<le> w \<and> 0 \<le> h"
  using assms
  by (simp add: right_angle_dimensions_def bind_err_def py_div_def Let_def)

lemma right_angle_nonneg:
  assumes "0 \<le> rw" "0 \<le> rh"
    and "case cw of None \<Rightarrow> True | Some w \<Rightarrow> 0 \<le> w"
    and "case ch of None \<Rightarrow> True | Some h \<Rightarrow> 0 \<le> h"
  shows "\<exists>w h. right_angle_dimensions rw rh a cw ch (aspect_ratio_of cw ch) = Inr (w, h)
           \<and> 0 \<le> w \<and> 0 \<le> h"
proof (cases cw)
  case None
  then show ?thesis using assms
    by (cases ch) (simp_all add: right_angle_dimensions_def)
next
  case (Some w)
  show ?thesis
  proof (cases ch)
    case None
    then show ?thesis using assms Some by (simp add: right_angle_inf)
  next
    case (Some h)
    show ?thesis
    proof (cases "h = 0 \<or> w = 0")
      case True
      then show ?thesis using assms \<open>cw = Some w\<close> \<open>ch = Some h\<close>
        by (auto simp add: right_angle_dimensions_def)
    next
      case False
      then have "0 < w / h" using assms \<open>cw = Some w\<close> \<open>ch = Some h\<close> by simp
      from right_angle_ratio_nonneg [OF assms(1,2) this] False
      show ?thesis using \<open>cw = Some w\<close> \<open>ch = Some h\<close> by simp
    qed
  qed
qed

lemma family_45_ratio_nonneg:
  assumes "0 \<le> rw" "0 \<le> rh" "0 < r"
  shows "\<exists>w h. family_45_dimensions rw rh cw ch (Ratio r) = Inr (w, h) \<and> 0 \<le> w \<and> 0 \<le> h"
  using assms
  by (simp add: family_45_dimensions_def bind_err_def py_div_def Let_def)

lemma family_45_none_nonneg:
  assumes "0 \<le> rw" "0 \<le> rh"
  shows "\<exists>w h. family_45_dimensions rw rh cw ch NoRatio = Inr (w, h) \<and> 0 \<le> w \<and> 0 \<le> h"
proof -
  have "family_45_dimensions rw rh cw ch NoRatio
          = Inr (sqrt 2 * min rw rh / 2, sqrt 2 * min rw rh / 2)"
    by (simp add: family_45_dimensions_def Let_def)
  moreover have "0 \<le> sqrt 2 * min rw rh / 2" using assms by simp
  ultimately show ?thesis by blast
qed

lemma general_ratio_nonneg:
  assumes "0 \<le> rw" "0 \<le> rh" "0 < r" "0 < c" "0 < s"
  shows "\<exists>w h. general_dimensions rw rh c s c2 cw ch (Ratio r) = Inr (w, h) \<and> 0 \<le> w \<and> 0 \<le> h"
proof -
  have "0 < r * c + s" and "0 < r * s + c" using assms by (simp_all add: add_pos_pos)
  then show ?thesis using assms
    by (simp add: general_dimensions_def bind_err_def py_div_def Let_def)
qed

lemma none_nonneg:
  assumes "0 \<le> rw" "0 \<le> rh"
  shows "\<exists>w h. get_original_dimensions rw rh a None None = Inr (w, h) \<and> 0 \<le> w \<and> 0 \<le> h"
proof (cases "angle_regime a")
  case RIGHT_ANGLE
  then show ?thesis using assms by (simp add: original_dimensions_none)
next
  case FAMILY_45
  then show ?thesis
    using family_45_none_nonneg [OF assms] by (simp add: original_dimensions_unfold)
next
  case GENERAL
  then have "py_mod a 90 \<noteq> 0" by (simp add: regime_general)
  then have "0 < abs_cos (radians_angle a True)" by (rule oblique_trig_pos)
  with GENERAL show ?thesis by (simp add: original_dimensions_none)
qed

lemma oblique_ratio_nonneg:
  assumes "0 \<le> rw" "0 \<le> rh" "0 < r" "aspect_ratio_of cw ch = Ratio r"
    and "angle_regime a \<noteq> RIGHT_ANGLE"
  shows "\<exists>w h. get_original_dimensions rw rh a cw ch = Inr (w, h) \<and> 0 \<le> w \<and> 0 \<le> h"
proof (cases "angle_regime a")
  case RIGHT_ANGLE
  with assms(5) show ?thesis by simp
next
  case FAMILY_45
  with family_45_ratio_nonneg [OF assms(1-3)] assms(4) show ?thesis
    by (simp add: original_dimensions_unfold)
next
  case GENERAL
  then have "py_mod a 90 \<noteq> 0" by (simp add: regime_general)
  then have "0 < abs_cos (radians_angle a True)" and "0 < abs_sin (radians_angle a True)"
    by (rule oblique_trig_pos)+
  from general_ratio_nonneg [OF assms(1-3) this] GENERAL assms(4) show ?thesis
    by (simp add: original_dimensions_unfold)
qed

lemma nonneg_sufficient:
  assumes "0 \<le> rw" and "0 \<le> rh"
    and "case cw of None \<Rightarrow> True | Some w \<Rightarrow> 0 \<le> w"
    and "case ch of None \<Rightarrow> True | Some h \<Rightarrow> 0 \<le> h"
    and "angle_regime a = RIGHT_ANGLE
         \<or> (cw = None \<and> ch = None)
         \<or> (\<exists>w h. cw = Some w \<and> ch = Some h \<and> 0 < w \<and> 0 < h
                \<and> min_double \<le> w / h \<and> w / h \<le> max_double)"
  shows "\<exists>w h. get_original_dimensions rw rh a cw ch = Inr (w, h) \<and> 0 \<le> w \<and> 0 \<le> h"
proof (cases "angle_regime a = RIGHT_ANGLE")
  case True
  then show ?thesis
    using right_angle_nonneg [OF assms(1-4)] by (simp add: original_dimensions_unfold)
next
  case False
  with assms(5) consider
      (none) "cw = None" "ch = None"
    | (both) w h where "cw = Some w" "ch = Some h" "0 < w" "0 < h"
    by auto
  then show ?thesis
  proof cases
    case none
    then show ?thesis using none_nonneg [OF assms(1,2)] by simp
  next
    case both
    then have "0 < w / h" and "aspect_ratio_of cw ch = Ratio (w / h)" by simp_all
    with assms(1,2) show ?thesis using False by (rule oblique_ratio_nonneg)
  qed
qed

lemma fixed_width_sign:
  assumes "angle_regime a \<noteq> RIGHT_ANGLE" and "aspect_ratio_of (Some kw) ch = InfRatio"
  shows "\<exists>h. get_original_dimensions rw rh a (Some kw) ch = Inr (kw, h)
           \<and> (0 \<le> h) = (kw * abs_cos (radians_angle a True) \<le> rw
                          \<and> kw * abs_sin (radians_angle a True) \<le> rh)"
  using fitting_remainder_iff [OF assms(1), of _ rw rh kw]
  by (simp add: original_dimensions_inf [OF assms(2)])

lemma fixed_height_sign:
  assumes "angle_regime a \<noteq> RIGHT_ANGLE" and "aspect_ratio_of cw (Some kh) = Ratio 0"
  shows "\<exists>w. get_original_dimensions rw rh a cw (Some kh) = Inr (w, kh)
           \<and> (0 \<le> w) = (kh * abs_sin (radians_angle a True) \<le> rw
                          \<and> kh * abs_cos (radians_angle a True) \<le> rh)"
proof -
  have "(0 \<le> (case angle_regime a of
            RIGHT_ANGLE \<Rightarrow> (if py_mod a 180 = 0 then rw else rh)
          | FAMILY_45 \<Rightarrow> sqrt 2 * min rw rh - kh
          | GENERAL \<Rightarrow>
              min ((rw - kh * abs_sin (radians_angle a True)) / abs_cos (radians_angle a True))
                  ((rh - kh * abs_cos (radians_angle a True)) / abs_sin (radians_angle a True))))
        = (kh * abs_sin (radians_angle a True) \<le> rw
            \<and> kh * abs_cos (radians_angle a True) \<le> rh)"
    using fitting_remainder_iff [OF assms(1), of 0 rh rw kh] assms(1)
    by (cases "angle_regime a") (auto simp add: min.commute)
  then show ?thesis by (simp only: original_dimensions_zero_ratio [OF assms(2)]) blast
qed

text \<open>
  C4, amended. For non-negative rotated width and height and non-negative known
  dimensions, \<^verbatim>\<open>get_original_dimensions\<close> returns a pair of non-negative numbers
  in the right-angle regime, and in the 45-degree and general regimes whenever no known
  dimension is given or both are given and positive with a quotient in the range of
  the doubles. Where the code holds a single dimension fixed in the 45-degree and
  general regimes (only the width known or the known height 0; only the height known
  or the known width 0), it returns that dimension unchanged and the other component
  is non-negative exactly when the fixed dimension fits into the rotated box: a fixed
  width \<open>kw\<close> with \<open>kw * |cos th| \<le> rotated_width\<close> and
  \<open>kw * |sin th| \<le> rotated_height\<close>, a fixed height \<open>kh\<close> with
  \<open>kh * |sin th| \<le> rotated_width\<close> and \<open>kh * |cos th| \<le> rotated_height\<close>.
\<close>

theorem original_dimensions_nonneg:
  "(0 \<le> rw \<and> 0 \<le> rh
      \<and> (case cw of None \<Rightarrow> True | Some w \<Rightarrow> 0 \<le> w)
      \<and> (case ch of None \<Rightarrow> True | Some h \<Rightarrow> 0 \<le> h)
      \<and> (angle_regime a = RIGHT_ANGLE
           \<or> (cw = None \<and> ch = None)
           \<or> (\<exists>w h. cw = Some w \<and> ch = Some h \<and> 0 < w \<and> 0 < h
                  \<and> min_double \<le> w / h \<and> w / h \<le> max_double))
    \<longrightarrow> (\<exists>w h. get_original_dimensions rw rh a cw ch = Inr (w, h) \<and> 0 \<le> w \<and> 0 \<le> h))
   \<and> (angle_regime a \<noteq> RIGHT_ANGLE \<and> aspect_ratio_of (Some kw) ch = InfRatio
    \<longrightarrow> (\<exists>h. get_original_dimensions rw rh a (Some kw) ch = Inr (kw, h)
           \<and> (0 \<le> h) = (kw * abs_cos (radians_angle a True) \<le> rw
                          \<and> kw * abs_sin (radians_angle a True) \<le> rh)))
   \<and> (angle_regime a \<noteq> RIGHT_ANGLE \<and> aspect_ratio_of cw (Some kh) = Ratio 0
    \<longrightarrow> (\<exists>w. get_original_dimensions rw rh a cw (Some kh) = Inr (w, kh)
           \<and> (0 \<le> w) = (kh * abs_sin (radians_angle a True) \<le> rw
                          \<and> kh * abs_cos (radians_angle a True) \<le> rh)))"
  using nonneg_sufficient [of rw rh cw ch a] fixed_width_sign [of a kw ch rw rh]
    fixed_height_sign [of a cw kh rw rh]
  by blast

theorem original_dimensions_nonneg_witness:
  "(\<exists>w h. get_original_dimensions 100 50 30 (Some 20) (Some 10) = Inr (w, h)
     \<and> 0 \<le> w \<and> 0 \<le> h)
   \<and> (\<exists>h. get_original_dimensions 100 100 30 (Some 50) None = Inr (50, h)
     \<and> (0 \<le> h) = (50 * abs_cos (radians_angle 30 True) \<le> 100
                    \<and> 50 * abs_sin (radians_angle 30 True) \<le> 100))
   \<and> (\<exists>w. get_original_dimensions 100 100 30 None (Some 50) = Inr (w, 50)
     \<and> (0 \<le> w) = (50 * abs_sin (radians_angle 30 True) \<le> 100
                    \<and> 50 * abs_cos (radians_angle 30 True) \<le> 100))"
proof -
  have r: "(20::real) / 10 = 2" by simp
  have m: "min_double \<le> 2" "2 \<le> max_double"
    by (simp_all add: min_double_def max_double_def)
  from original_dimensions_nonneg [of 100 50 "Some 20" "Some 10" 30]
  have 1: "\<exists>w h. get_original_dimensions 100 50 30 (Some 20) (Some 10) = Inr (w, h)
     \<and> 0 \<le> w \<and> 0 \<le> h"
    using m by (simp add: r)
  from original_dimensions_nonneg [of 100 100 _ None 30 50 _]
  have 2: "\<exists>h. get_original_dimensions 100 100 30 (Some 50) None = Inr (50, h)
     \<and> (0 \<le> h) = (50 * abs_cos (radians_angle 30 True) \<le> 100
                    \<and> 50 * abs_sin (radians_angle 30 True) \<le> 100)"
    by (simp add: regime_30)
  from original_dimensions_nonneg [of 100 100 None _ 30 _ 50]
  have 3: "\<exists>w. get_original_dimensions 100 100 30 None (Some 50) = Inr (w, 50)
     \<and> (0 \<le> w) = (50 * abs_sin (radians_angle 30 True) \<le> 100
                    \<and> 50 * abs_cos (radians_angle 30 True) \<le> 100)"
    by (simp add: regime_30)
  from 1 2 3 show ?thesis by (intro conjI)
qed

section \<open>Inverse mapping: the guard of the division by cos (2 * angle)\<close>

lemma near_45_cos:
  assumes "0 < d" "d \<le> 1"
  shows "cos (2 * radians_angle (45 + d) True) = - sin (d * pi / 90)"
proof -
  have "normalize_angle (45 + d) = 45 + d" using assms by (simp add: normalize_small)
  then have "2 * radians_angle (45 + d) True = pi / 2 + d * pi / 90"
    by (simp add: radians_angle_def math_radians_def field_simps)
  moreover have "cos (pi / 2 + d * pi / 90) = - sin (d * pi / 90)"
    by (simp only: cos_add cos_pi_half sin_pi_half mult_zero_left mult_1 diff_0)
  ultimately show ?thesis by (simp only:)
qed

lemma near_45_general:
  assumes "0 < d" "d \<le> 1"
  shows "angle_regime (45 + d) = GENERAL"
    and "0 < \<bar>cos (2 * radians_angle (45 + d) True)\<bar>"
    and "\<bar>cos (2 * radians_angle (45 + d) True)\<bar> < d"
proof -
  have p: "0 < d * pi / 90" using assms by simp
  have "d * pi / 90 < pi" using assms pi_gt_zero by (simp add: field_simps)
  with p have s: "0 < sin (d * pi / 90)" by (rule sin_gt_zero)
  then show nz: "0 < \<bar>cos (2 * radians_angle (45 + d) True)\<bar>"
    by (simp add: near_45_cos [OF assms])
  have "py_mod (45 + d) 90 = 45 + d" using assms by (simp add: py_mod_small)
  then have "py_mod (45 + d) 90 \<noteq> 0" using assms by simp
  with nz show "angle_regime (45 + d) = GENERAL" by (simp add: regime_general)
  have "\<bar>sin (d * pi / 90)\<bar> \<le> \<bar>d * pi / 90\<bar>" by (rule abs_sin_x_le_abs_x)
  also have "\<dots> = d * pi / 90" using p by simp
  also have "\<dots> < d" using assms pi_less_4 by (simp add: field_simps)
  finally show "\<bar>cos (2 * radians_angle (45 + d) True)\<bar> < d"
    by (simp add: near_45_cos [OF assms])
qed

text \<open>
  C3. The claim does not hold of \<^verbatim>\<open>get_original_dimensions\<close>: line 193 tests
  \<^verbatim>\<open>cos_2_angle == 0\<close> exactly and there is no epsilon. In the exact reading, for
  every \<open>eps > 0\<close> the angle \<open>45 + min 1 eps\<close> is routed to the general regime
  although the cosine of its doubled angle is non-zero and smaller than \<open>eps\<close> in
  absolute value, and without known dimensions the result is the quotient by that
  cosine. In doubles the angle 45 itself is routed to the general regime, because the
  library's cosine is not zero there, and for a rotated box of 100 by 50 lines 225-226
  return about (5.77e17, 5.77e17).
\<close>

theorem family_45_guard_missed:
  assumes "0 < eps"
  shows "angle_regime (45 + min 1 eps) = GENERAL
   \<and> 0 < \<bar>cos (2 * radians_angle (45 + min 1 eps) True)\<bar>
   \<and> \<bar>cos (2 * radians_angle (45 + min 1 eps) True)\<bar> < eps
   \<and> get_original_dimensions rw rh (45 + min 1 eps) None None
       = Inr (\<bar>(rw * abs_cos (radians_angle (45 + min 1 eps) True)
                  - rh * abs_sin (radians_angle (45 + min 1 eps) True))
                / cos (2 * radians_angle (45 + min 1 eps) True)\<bar>,
              \<bar>rh - \<bar>(rw * abs_cos (radians_angle (45 + min 1 eps) True)
                         - rh * abs_sin (radians_angle (45 + min 1 eps) True))
                       / cos (2 * radians_angle (45 + min 1 eps) True)\<bar>
                     * abs_sin (radians_angle (45 + min 1 eps) True)\<bar>
                / abs_cos (radians_angle (45 + min 1 eps) True))
   \<and> angle_regime_fl rnd 45 cos_90_double = GENERAL
   \<and> general_unconstrained_fl rnd 100 50 cos_45_double sin_45_double cos_90_double
       = Inr (577396504591252736, 577396504591252608)"
proof -
  have d: "0 < min 1 eps" "min 1 eps \<le> 1" using assms by simp_all
  note g = near_45_general [OF d]
  have "\<bar>cos (2 * radians_angle (45 + min 1 eps) True)\<bar> < eps"
    using g(3) by simp
  moreover have "get_original_dimensions rw rh (45 + min 1 eps) None None
       = Inr (\<bar>(rw * abs_cos (radians_angle (45 + min 1 eps) True)
                  - rh * abs_sin (radians_angle (45 + min 1 eps) True))
                / cos (2 * radians_angle (45 + min 1 eps) True)\<bar>,
              \<bar>rh - \<bar>(rw * abs_cos (radians_angle (45 + min 1 eps) True)
                         - rh * abs_sin (radians_angle (45 + min 1 eps) True))
                       / cos (2 * radians_angle (45 + min 1 eps) True)\<bar>
                     * abs_sin (radians_angle (45 + min 1 eps) True)\<bar>
                / abs_cos (radians_angle (45 + min 1 eps) True))"
    by (simp add: original_dimensions_none g(1))
  ultimately show ?thesis
    using g(1,2) regime_double_45 general_double_45 by (intro conjI)
qed

theorem family_45_guard_missed_witness:
  "(0::real) < 1 / 10000000
   \<and> angle_regime (45 + min 1 (1 / 10000000)) = GENERAL
   \<and> 0 < \<bar>cos (2 * radians_angle (45 + min 1 (1 / 10000000)) True)\<bar>
   \<and> \<bar>cos (2 * radians_angle (45 + min 1 (1 / 10000000)) True)\<bar> < 1 / 10000000
   \<and> angle_regime_fl rnd 45 cos_90_double = GENERAL"
proof -
  have h: "(0::real) < 1 / 10000000" by simp
  from family_45_guard_missed [OF h, of 100 50] h show ?thesis by blast
qed

section \<open>No validation of the inputs\<close>




lemma general_any_finite:
  "general_dimensions_any rw rh (Fin c) (Fin s) (Fin c2) cw ch asp
     = lift_result (general_dimensions rw rh c s c2 cw ch asp)"
  by (cases asp)
     (simp_all add: general_dimensions_any_def general_dimensions_def lift_result_def
       bind_err_def py_div_def Let_def min_def)








section \<open>Combination of size policies\<close>

lemma nat_le_or_left: "(m::nat) \<le> m OR n"
proof -
  have "int m \<le> int m OR int n" by (rule or_greater_eq) simp
  then show ?thesis by (simp flip: of_nat_or_eq)
qed

lemma nat_le_or_right: "(n::nat) \<le> m OR n"
  using nat_le_or_left [of n m] by (simp add: or.commute)

lemma closest_superior_result:
  "closest_superior val c ps = Ignored
   \<or> (closest_superior val c ps \<in> set ps \<and> c \<le> val (closest_superior val c ps))"
  by (induction ps) auto

lemma flexibility_le_6: "flexibility p \<le> 6"
  by (cases p) simp_all

lemma ascending_mono:
  assumes "policy_values_ascending val" and "val p \<le> val q"
  shows "flexibility p \<le> flexibility q"
  using assms
  by (cases p; cases q) (simp_all add: policy_values_ascending_def policy_order_def)

lemma closest_superior_self:
  assumes "policy_values_ascending val"
  shows "closest_superior val (val p) policy_order = p"
  using assms
  by (cases p) (simp_all add: policy_values_ascending_def policy_order_def)

lemma combine_flexible:
  assumes "policy_values_ascending val" and "val p \<le> val h OR val v"
  shows "flexibility p \<le> flexibility (combine_size_policies val h v)"
proof -
  let ?r = "closest_superior val (val h OR val v) policy_order"
  from closest_superior_result [of val "val h OR val v" policy_order]
  have "flexibility p \<le> flexibility ?r"
  proof
    assume "?r = Ignored"
    then show ?thesis using flexibility_le_6 [of p] by simp
  next
    assume "?r \<in> set policy_order \<and> val h OR val v \<le> val ?r"
    with assms(2) have "val p \<le> val ?r" by simp
    with assms(1) show ?thesis by (rule ascending_mono)
  qed
  then show ?thesis by (simp add: combine_size_policies_def Let_def)
qed

text \<open>
  C6. For flag values that are zero at \<^verbatim>\<open>Fixed\<close> and increase along
  \<^verbatim>\<open>policy_order\<close> (as Qt's do), \<^verbatim>\<open>combine_size_policies\<close> is commutative and
  idempotent, sends (Fixed, Expanding) to Expanding, and its result is at least as
  flexible as each input in the order Fixed, Minimum, MinimumExpanding, Maximum,
  Preferred, Expanding, Ignored.
\<close>

theorem combine_size_policies_laws:
  assumes "policy_values_ascending val"
  shows "combine_size_policies val h v = combine_size_policies val v h
     \<and> combine_size_policies val p p = p
     \<and> combine_size_policies val Fixed Expanding = Expanding
     \<and> flexibility h \<le> flexibility (combine_size_policies val h v)
     \<and> flexibility v \<le> flexibility (combine_size_policies val h v)"
proof -
  have comm: "combine_size_policies val h v = combine_size_policies val v h"
    by (simp add: combine_size_policies_def or.commute)
  have idem: "combine_size_policies val p p = p"
    using closest_superior_self [OF assms, of p] by (simp add: combine_size_policies_def)
  have "val Fixed = 0" using assms by (simp add: policy_values_ascending_def)
  then have fe: "combine_size_policies val Fixed Expanding = Expanding"
    using closest_superior_self [OF assms, of Expanding]
    by (simp add: combine_size_policies_def)
  have fh: "flexibility h \<le> flexibility (combine_size_policies val h v)"
    using assms nat_le_or_left by (rule combine_flexible)
  have fv: "flexibility v \<le> flexibility (combine_size_policies val h v)"
    using assms nat_le_or_right by (rule combine_flexible)
  from comm idem fe fh fv show ?thesis by (intro conjI)
qed

theorem combine_size_policies_laws_witness:
  "policy_values_ascending qt_policy_value
   \<and> combine_size_policies qt_policy_value MinimumExpanding Maximum
       = combine_size_policies qt_policy_value Maximum MinimumExpanding
   \<and> combine_size_policies qt_policy_value Preferred Preferred = Preferred
   \<and> combine_size_policies qt_policy_value Fixed Expanding = Expanding
   \<and> flexibility MinimumExpanding
       \<le> flexibility (combine_size_policies qt_policy_value MinimumExpanding Maximum)
   \<and> flexibility Maximum
       \<le> flexibility (combine_size_policies qt_policy_value MinimumExpanding Maximum)"
proof -
  have a: "policy_values_ascending qt_policy_value"
    by (simp add: policy_values_ascending_def policy_order_def)
  show ?thesis
    by (rule conjI [OF a combine_size_policies_laws [OF a]])
qed

lemma combine_qt_example:
  "combine_size_policies qt_policy_value MinimumExpanding Maximum = Expanding"
  "combine_size_policies qt_policy_value Ignored MinimumExpanding = Ignored"
  by (simp_all add: combine_size_policies_def policy_order_def)

section \<open>Anchor edges\<close>

lemma quadrant_135: "get_quadrant_or_axis 135 = QUADRANT_2"
  by (simp add: get_quadrant_or_axis_def normalize_small)

lemma apply_adjustment_frame:
  "rect_right (apply_adjustment adj r) = rect_right r"
  "rect_bottom (apply_adjustment adj r) = rect_bottom r"
  by (cases adj; simp add: apply_adjustment_def setLeft_def setTop_def rect_right_def
        rect_bottom_def Let_def split: option.splits)+

lemma quadrant_0_90:
  "get_quadrant_or_axis 0 = POSITIVE_X_AXIS" "get_quadrant_or_axis 90 = POSITIVE_Y_AXIS"
  by (simp_all add: get_quadrant_or_axis_def normalize_small)

text \<open>
  C9 as stated fails: the outcomes are not mapped to distinct combinations. Angles 0 and
  90 are classified differently, and for both the branch moves neither the left nor the
  top edge.
\<close>

theorem anchor_edges_counterexample:
  "anchor_adjustment (get_quadrant_or_axis 0) 0 100 50 100 50
     \<lparr>rect_x = 0, rect_y = 0, rect_w = 90, rect_h = 40\<rparr>
     \<lparr>rect_x = 0, rect_y = 0, rect_w = 90, rect_h = 40\<rparr> = (None, None)
   \<and> anchor_adjustment (get_quadrant_or_axis 90) 90 100 50 50 100
     \<lparr>rect_x = 0, rect_y = 0, rect_w = 90, rect_h = 40\<rparr>
     \<lparr>rect_x = 0, rect_y = 0, rect_w = 40, rect_h = 90\<rparr> = (None, None)
   \<and> get_quadrant_or_axis 0 \<noteq> get_quadrant_or_axis 90"
  by (simp add: quadrant_0_90)

text \<open>
  C9, amended. The anchor step calls \<^verbatim>\<open>setLeft\<close> exactly for quadrants 1, 2, 3 and
  the negative X axis, and \<^verbatim>\<open>setTop\<close> exactly for quadrants 2, 3, 4 and the
  negative Y axis, so the eight outcomes share four combinations (the positive axes move
  neither edge). The right and bottom edges are never moved. Angle 135 is quadrant 2:
  the left edge moves by the growth of the rotated width and the top edge by the growth
  of the height times the absolute cosine.
\<close>

theorem anchor_edge_selection:
  "(fst (anchor_adjustment q angle width height rw rh pr sr) \<noteq> None)
     = (q \<in> {QUADRANT_1, QUADRANT_2, QUADRANT_3, NEGATIVE_X_AXIS})
   \<and> (snd (anchor_adjustment q angle width height rw rh pr sr) \<noteq> None)
     = (q \<in> {QUADRANT_2, QUADRANT_3, QUADRANT_4, NEGATIVE_Y_AXIS})
   \<and> rect_right (apply_adjustment (anchor_adjustment q angle width height rw rh pr sr) sr)
     = rect_right sr
   \<and> rect_bottom (apply_adjustment (anchor_adjustment q angle width height rw rh pr sr) sr)
     = rect_bottom sr
   \<and> get_quadrant_or_axis 135 = QUADRANT_2
   \<and> anchor_adjustment (get_quadrant_or_axis 135) 135 width height rw rh pr sr
     = (Some (rect_x sr - (rw - rect_w sr)),
        Some (rect_y sr - (height - rect_h pr) * abs_cos_d 135))
   \<and> rect_x (resizeEvent_scene_rect 135 width height pr sr)
     = rect_x sr - (fst (get_rotated_dimensions width height 135) - rect_w sr)
   \<and> rect_y (resizeEvent_scene_rect 135 width height pr sr)
     = rect_y sr - (height - rect_h pr) * abs_cos_d 135"
proof -
  have edges:
    "(fst (anchor_adjustment q angle width height rw rh pr sr) \<noteq> None)
       = (q \<in> {QUADRANT_1, QUADRANT_2, QUADRANT_3, NEGATIVE_X_AXIS})"
    "(snd (anchor_adjustment q angle width height rw rh pr sr) \<noteq> None)
       = (q \<in> {QUADRANT_2, QUADRANT_3, QUADRANT_4, NEGATIVE_Y_AXIS})"
    by (cases q; simp)+
  have moved:
    "rect_x (resizeEvent_scene_rect 135 width height pr sr)
       = rect_x sr - (fst (get_rotated_dimensions width height 135) - rect_w sr)"
    "rect_y (resizeEvent_scene_rect 135 width height pr sr)
       = rect_y sr - (height - rect_h pr) * abs_cos_d 135"
    by (simp_all add: resizeEvent_scene_rect_def quadrant_135 apply_adjustment_def
        setLeft_def setTop_def setWidth_def setHeight_def Let_def split: prod.splits)
  show ?thesis
    by (simp only: edges moved apply_adjustment_frame quadrant_135 anchor_adjustment.simps)
qed

end
